theory Spec2Isabelle
  imports Main "HOL-Library.Char_ord" "HOL-Library.List_Lexorder"
begin

section \<open>Data model: cells, frames, files\<close>

text \<open>
  The program (\<^verbatim>\<open>src/synonyms.py\<close>) is a set of pandas scripts over CSV files. A cell
  is a value as the loop bodies of the program see it after \<^verbatim>\<open>pd.read_csv\<close>: a string,
  a number, a boolean or the missing value NaN. Numbers are kept by value: \<open>CInt n\<close> stands
  for the integer \<open>n\<close>, whether pandas holds it as int64, as uint64 (how \<^verbatim>\<open>read_csv\<close> types
  a column with a number from \<open>2^63\<close> up) or as an integral float64; non-integral
  floating-point payloads are outside the model. Strings are ASCII texts.
\<close>

datatype cell = CStr string | CInt int | CBool bool | CNaN

datatype error =
    FileNotFoundError
  | EmptyDataError
  | ParserError
  | KeyError string
  | TypeError
  | ValueError
  | OverflowError
  | IndexError
  | AttributeError
  | OperationalError

text \<open>
  A CSV file is its header line and its data lines, already split into fields and typed
  as \<^verbatim>\<open>read_csv\<close> types them. A source read with \<^verbatim>\<open>names=...\<close> has no header line:
  its \<open>header\<close> is empty.
\<close>

record csv =
  header :: "string list"
  body :: "cell list list"

type_synonym fs = "string \<rightharpoonup> csv"

text \<open>
  A DataFrame: the column names and the rows, each row with its index label. \<^verbatim>\<open>read_csv\<close>
  labels the rows \<open>0, 1, 2, ...\<close>; \<^verbatim>\<open>drop\<close> removes rows by label and does not relabel.
\<close>

record frame =
  columns :: "string list"
  rows :: "(nat \<times> cell list) list"

subsection \<open>Python values\<close>

definition truthy :: "cell \<Rightarrow> bool" where
  "truthy c = (case c of CStr s \<Rightarrow> s \<noteq> [] | CInt n \<Rightarrow> n \<noteq> 0 | CBool b \<Rightarrow> b | CNaN \<Rightarrow> True)"

definition upper_letters :: string where
  "upper_letters = ''ABCDEFGHIJKLMNOPQRSTUVWXYZ''"

definition lower_letters :: string where
  "lower_letters = ''abcdefghijklmnopqrstuvwxyz''"

definition lower_char :: "char \<Rightarrow> char" where
  "lower_char c = (case map_of (zip upper_letters lower_letters) c of Some d \<Rightarrow> d | None \<Rightarrow> c)"

definition upper_char :: "char \<Rightarrow> char" where
  "upper_char c = (case map_of (zip lower_letters upper_letters) c of Some d \<Rightarrow> d | None \<Rightarrow> c)"

definition lower :: "string \<Rightarrow> string" where
  "lower s = map lower_char s"

definition upper :: "string \<Rightarrow> string" where
  "upper s = map upper_char s"

definition digit_char :: "nat \<Rightarrow> char" where
  "digit_char d = ''0123456789'' ! (d mod 10)"

fun str_nat :: "nat \<Rightarrow> string" where
  "str_nat n = (if n < 10 then [digit_char n] else str_nat (n div 10) @ [digit_char (n mod 10)])"

declare str_nat.simps [simp del]

definition str_int :: "int \<Rightarrow> string" where
  "str_int i = (if i < 0 then CHR ''-'' # str_nat (nat (- i)) else str_nat (nat i))"

text \<open>\<^verbatim>\<open>str(x)\<close> on a cell.\<close>

definition py_str :: "cell \<Rightarrow> string" where
  "py_str c = (case c of CStr s \<Rightarrow> s | CInt n \<Rightarrow> str_int n
     | CBool b \<Rightarrow> (if b then ''True'' else ''False'') | CNaN \<Rightarrow> ''nan'')"

subsection \<open>Reading and writing CSV files\<close>

definition pad :: "nat \<Rightarrow> cell list \<Rightarrow> cell list" where
  "pad n r = r @ replicate (n - length r) CNaN"

text \<open>
  \<^verbatim>\<open>pd.read_csv(path)\<close>: the file must exist and have a header; a data line with more
  fields than the header is a parser error, a shorter one is filled with NaN.
\<close>

definition read_csv :: "fs \<Rightarrow> string \<Rightarrow> error + frame" where
  "read_csv files path =
     (case files path of
        None \<Rightarrow> Inl FileNotFoundError
      | Some f \<Rightarrow>
          if header f = [] then Inl EmptyDataError
          else if list_ex (\<lambda>r. length (header f) < length r) (body f) then Inl ParserError
          else Inr \<lparr>columns = header f,
                    rows = zip [0..<length (body f)] (map (pad (length (header f))) (body f))\<rparr>)"

text \<open>\<^verbatim>\<open>frame.to_csv(path, index=...)\<close>; with \<^verbatim>\<open>index=True\<close> (the default) the index
  labels are written as a first column with an empty name.\<close>

definition to_csv :: "frame \<Rightarrow> string \<Rightarrow> bool \<Rightarrow> fs \<Rightarrow> fs" where
  "to_csv df path index files =
     (if index
      then files(path \<mapsto> \<lparr>header = '''' # columns df,
                           body = map (\<lambda>(l, r). CInt (int l) # r) (rows df)\<rparr>)
      else files(path \<mapsto> \<lparr>header = columns df, body = map snd (rows df)\<rparr>))"

text \<open>\<^verbatim>\<open>row[name]\<close> on a row of \<^verbatim>\<open>iterrows()\<close>.\<close>

definition getitem :: "string list \<Rightarrow> cell list \<Rightarrow> string \<Rightarrow> error + cell" where
  "getitem cols r name =
     (case map_of (zip cols r) name of None \<Rightarrow> Inl (KeyError name) | Some v \<Rightarrow> Inr v)"

text \<open>\<^verbatim>\<open>frame.drop(index=label, inplace=True)\<close>: a label that is not there raises.\<close>

definition drop_index :: "nat \<Rightarrow> frame \<Rightarrow> error + frame" where
  "drop_index l df =
     (if l \<in> set (map fst (rows df))
      then Inr (df\<lparr>rows := filter (\<lambda>lr. fst lr \<noteq> l) (rows df)\<rparr>)
      else Inl (KeyError (str_nat l)))"

section \<open>Deduplicator\<close>

text \<open>
  \<^verbatim>\<open>
  def removeDuplicates(input):
      data = pd.read_csv(input)
      names = set()
      for index, row in data.iterrows():
          lowered = str(row["Name"]).lower()
          if lowered in names:
              data.drop(index=index, inplace=True)
          else:
              names.add(lowered);
      data.to_csv("./chebiChemicalsCASSet.csv", index=False)
  \<close>
  \<^verbatim>\<open>iterrows()\<close> walks the index and the values the frame had when the loop started;
  \<^verbatim>\<open>drop(..., inplace=True)\<close> gives \<open>data\<close> new contents and leaves those untouched.
  So the loop runs over a snapshot of the rows, with the frame and the set as its state.
\<close>

fun removeDuplicates_loop ::
  "string list \<Rightarrow> (nat \<times> cell list) list \<Rightarrow> frame \<times> string set \<Rightarrow> error + frame \<times> string set"
where
  "removeDuplicates_loop cols [] st = Inr st"
| "removeDuplicates_loop cols ((index, row) # rest) (data, names) =
     (case getitem cols row ''Name'' of
        Inl e \<Rightarrow> Inl e
      | Inr v \<Rightarrow>
          (let lowered = lower (py_str v) in
           if lowered \<in> names
           then (case drop_index index data of
                   Inl e \<Rightarrow> Inl e
                 | Inr data' \<Rightarrow> removeDuplicates_loop cols rest (data', names))
           else removeDuplicates_loop cols rest (data, insert lowered names)))"

text \<open>The frame as it is when the loop has ended, before it is written.\<close>

definition removeDuplicates_frame :: "fs \<Rightarrow> string \<Rightarrow> error + frame" where
  "removeDuplicates_frame files input =
     (case read_csv files input of
        Inl e \<Rightarrow> Inl e
      | Inr data \<Rightarrow>
          (case removeDuplicates_loop (columns data) (rows data) (data, {}) of
             Inl e \<Rightarrow> Inl e
           | Inr (data', names) \<Rightarrow> Inr data'))"

definition removeDuplicates :: "fs \<Rightarrow> string \<Rightarrow> error + fs" where
  "removeDuplicates files input =
     (case removeDuplicates_frame files input of
        Inl e \<Rightarrow> Inl e
      | Inr data \<Rightarrow> Inr (to_csv data ''./chebiChemicalsCASSet.csv'' False files))"

section \<open>Frame operations used by the other stages\<close>

text \<open>
  \<^verbatim>\<open>pd.read_csv(path, names=[...])\<close>: every line of the file is a data line and the
  columns get the given names. A line with more fields than names is reported here as a
  parser error (pandas may instead take surplus leading fields as index labels; such
  files are not modelled further).
\<close>

definition read_csv_names :: "fs \<Rightarrow> string \<Rightarrow> string list \<Rightarrow> error + frame" where
  "read_csv_names files path names =
     (case files path of
        None \<Rightarrow> Inl FileNotFoundError
      | Some f \<Rightarrow>
          (let lines = (if header f = [] then [] else [map CStr (header f)]) @ body f in
           if list_ex (\<lambda>r. length names < length r) lines then Inl ParserError
           else Inr \<lparr>columns = names,
                     rows = zip [0..<length lines] (map (pad (length names)) lines)\<rparr>))"

text \<open>\<^verbatim>\<open>frame.drop(columns=[...], inplace=True)\<close>, and \<^verbatim>\<open>frame.drop(name, axis=1, ...)\<close>
  with a one-element list.\<close>

definition drop_columns :: "string list \<Rightarrow> frame \<Rightarrow> error + frame" where
  "drop_columns names df =
     (case filter (\<lambda>n. n \<notin> set (columns df)) names of
        n # _ \<Rightarrow> Inl (KeyError n)
      | [] \<Rightarrow>
          Inr \<lparr>columns = filter (\<lambda>c. c \<notin> set names) (columns df),
               rows = map (\<lambda>lr. (fst lr,
                        map snd (filter (\<lambda>cv. fst cv \<notin> set names) (zip (columns df) (snd lr)))))
                      (rows df)\<rparr>)"

text \<open>\<^verbatim>\<open>frame.columns = [...]\<close>.\<close>

definition set_columns :: "string list \<Rightarrow> frame \<Rightarrow> error + frame" where
  "set_columns names df =
     (if length names = length (columns df) then Inr (df\<lparr>columns := names\<rparr>) else Inl ValueError)"

text \<open>
  \<^verbatim>\<open>int(s)\<close> on a string, for decimal digits with an optional sign; the other spellings
  Python accepts (blanks around the number, underscores) are outside the model.
\<close>

definition digit_val :: "char \<Rightarrow> nat option" where
  "digit_val c = map_of (zip ''0123456789'' [0..<10]) c"

fun parse_digits :: "string \<Rightarrow> nat \<Rightarrow> nat option" where
  "parse_digits [] acc = Some acc"
| "parse_digits (c # cs) acc =
     (case digit_val c of None \<Rightarrow> None | Some d \<Rightarrow> parse_digits cs (10 * acc + d))"

definition py_int :: "string \<Rightarrow> int option" where
  "py_int s =
     (case s of
        [] \<Rightarrow> None
      | c # cs \<Rightarrow>
          if c = CHR ''-'' then (if cs = [] then None else map_option (\<lambda>n. - int n) (parse_digits cs 0))
          else if c = CHR ''+'' then (if cs = [] then None else map_option int (parse_digits cs 0))
          else map_option int (parse_digits s 0))"

text \<open>
  One value under \<^verbatim>\<open>astype('int')\<close>, the conversion to int64. A number that is held
  in another numeric type is cast: a value outside the int64 range wraps around modulo
  \<open>2^64\<close> (so \<open>2^63\<close> becomes \<open>- 2^63\<close>). A missing value or a non-numeric text raises, and
  so does a text whose number does not fit int64.
\<close>

definition wrap64 :: "int \<Rightarrow> int" where
  "wrap64 n = (n + 2 ^ 63) mod 2 ^ 64 - 2 ^ 63"

definition astype_int :: "cell \<Rightarrow> error + cell" where
  "astype_int c =
     (case c of
        CInt n \<Rightarrow> Inr (CInt (wrap64 n))
      | CBool b \<Rightarrow> Inr (CInt (if b then 1 else 0))
      | CNaN \<Rightarrow> Inl ValueError
      | CStr s \<Rightarrow>
          (case py_int s of
             None \<Rightarrow> Inl ValueError
           | Some n \<Rightarrow> if - (2 ^ 63) \<le> n \<and> n < 2 ^ 63 then Inr (CInt n) else Inl OverflowError))"

text \<open>The first error of a sequence of computations, or all their results.\<close>

fun collect :: "(error + 'a) list \<Rightarrow> error + 'a list" where
  "collect [] = Inr []"
| "collect (Inl e # xs) = Inl e"
| "collect (Inr x # xs) = (case collect xs of Inl e \<Rightarrow> Inl e | Inr ys \<Rightarrow> Inr (x # ys))"

text \<open>\<^verbatim>\<open>frame[name] = frame[name].astype('int')\<close>.\<close>

definition astype_int_column :: "string \<Rightarrow> frame \<Rightarrow> error + frame" where
  "astype_int_column name df =
     (if name \<notin> set (columns df) then Inl (KeyError name)
      else
        (case collect (map (\<lambda>lr. collect (map (\<lambda>cv. if fst cv = name then astype_int (snd cv)
                                                        else Inr (snd cv))
                                              (zip (columns df) (snd lr))))
                       (rows df)) of
           Inl e \<Rightarrow> Inl e
         | Inr rs \<Rightarrow> Inr (df\<lparr>rows := zip (map fst (rows df)) rs\<rparr>)))"

text \<open>
  \<^verbatim>\<open>frame.sort_values(by=name, inplace=True)\<close>: ascending, the rows whose value is missing
  last. Numbers sort by value (a boolean as \<open>0\<close> or \<open>1\<close>), texts by their characters; a
  column that holds both a text and a number cannot be compared and raises a type error.
  A row that has no cell in the column counts as missing there. pandas' default sort is
  not stable; the model's is, and nothing below depends on the order among equal keys.
\<close>

definition is_str :: "cell \<Rightarrow> bool" where
  "is_str c = (case c of CStr s \<Rightarrow> True | _ \<Rightarrow> False)"

definition is_num :: "cell \<Rightarrow> bool" where
  "is_num c = (case c of CInt n \<Rightarrow> True | CBool b \<Rightarrow> True | _ \<Rightarrow> False)"

definition num_val :: "cell \<Rightarrow> int" where
  "num_val c = (case c of CInt n \<Rightarrow> n | CBool b \<Rightarrow> (if b then 1 else 0) | _ \<Rightarrow> 0)"

definition str_val :: "cell \<Rightarrow> string" where
  "str_val c = (case c of CStr s \<Rightarrow> s | _ \<Rightarrow> [])"

definition sort_cell :: "string list \<Rightarrow> string \<Rightarrow> nat \<times> cell list \<Rightarrow> cell" where
  "sort_cell cols name lr = (case getitem cols (snd lr) name of Inr v \<Rightarrow> v | Inl e \<Rightarrow> CNaN)"

definition sort_values :: "string \<Rightarrow> frame \<Rightarrow> error + frame" where
  "sort_values name df =
     (if name \<notin> set (columns df) then Inl (KeyError name)
      else
        (let present = filter (\<lambda>lr. sort_cell (columns df) name lr \<noteq> CNaN) (rows df);
             missing = filter (\<lambda>lr. sort_cell (columns df) name lr = CNaN) (rows df)
         in if list_all (\<lambda>lr. is_num (sort_cell (columns df) name lr)) present
            then Inr (df\<lparr>rows := sort_key (\<lambda>lr. num_val (sort_cell (columns df) name lr)) present
                                   @ missing\<rparr>)
            else if list_all (\<lambda>lr. is_str (sort_cell (columns df) name lr)) present
            then Inr (df\<lparr>rows := sort_key (\<lambda>lr. str_val (sort_cell (columns df) name lr)) present
                                   @ missing\<rparr>)
            else Inl TypeError))"

text \<open>
  \<^verbatim>\<open>frame.drop(frame[frame["Type"] != lit].index, inplace=True)\<close>: the rows whose Type is
  not the literal are dropped by label; the labels of \<^verbatim>\<open>read_csv\<close> are unique, so the rows
  with that Type stay.
\<close>

definition keep_type :: "string \<Rightarrow> frame \<Rightarrow> error + frame" where
  "keep_type lit df =
     (if ''Type'' \<notin> set (columns df) then Inl (KeyError ''Type'')
      else Inr (df\<lparr>rows := filter (\<lambda>lr. getitem (columns df) (snd lr) ''Type'' = Inr (CStr lit))
                                 (rows df)\<rparr>))"

text \<open>\<^verbatim>\<open>frame[name] = values\<close>: an existing column is replaced, a new one is appended.\<close>

definition set_column :: "string \<Rightarrow> cell list \<Rightarrow> frame \<Rightarrow> error + frame" where
  "set_column name vals df =
     (if length vals \<noteq> length (rows df) then Inl ValueError
      else if name \<in> set (columns df)
      then Inr (df\<lparr>rows := map (\<lambda>(lr, v). (fst lr,
                    map (\<lambda>cv. if fst cv = name then v else snd cv) (zip (columns df) (snd lr))))
                  (zip (rows df) vals)\<rparr>)
      else Inr \<lparr>columns = columns df @ [name],
                rows = map (\<lambda>(lr, v). (fst lr, snd lr @ [v])) (zip (rows df) vals)\<rparr>)"

section \<open>Decompressors\<close>

text \<open>
  \<^verbatim>\<open>
  def decompressMass():
      mass = pd.read_csv("./cid-mass", delim_whitespace=True,
                         names=["ID", "Formula", "Monoisotopic Mass", "Exact Mass"])
      mass.drop("Monoisotopic Mass", axis=1, inplace=True)
      mass.drop("Exact Mass", axis=1, inplace=True)
      mass.to_csv("./cid-mass.csv", index=False)
  \<close>
\<close>

definition decompressMass :: "fs \<Rightarrow> error + fs" where
  "decompressMass files =
     (case read_csv_names files ''./cid-mass'' [''ID'', ''Formula'', ''Monoisotopic Mass'', ''Exact Mass''] of
        Inl e \<Rightarrow> Inl e
      | Inr mass \<Rightarrow>
     (case drop_columns [''Monoisotopic Mass''] mass of
        Inl e \<Rightarrow> Inl e
      | Inr mass \<Rightarrow>
     (case drop_columns [''Exact Mass''] mass of
        Inl e \<Rightarrow> Inl e
      | Inr mass \<Rightarrow> Inr (to_csv mass ''./cid-mass.csv'' False files))))"

text \<open>
  \<^verbatim>\<open>
  def decompressSynonyms():
      synonyms = pd.read_csv("./cid-synonyms", delimiter="\t", names=["ID", "Synonym"])
      synonyms.to_csv("./cid-synonyms.csv", index=False)
  \<close>
\<close>

definition decompressSynonyms :: "fs \<Rightarrow> error + fs" where
  "decompressSynonyms files =
     (case read_csv_names files ''./cid-synonyms'' [''ID'', ''Synonym''] of
        Inl e \<Rightarrow> Inl e
      | Inr synonyms \<Rightarrow> Inr (to_csv synonyms ''./cid-synonyms.csv'' False files))"

text \<open>
  \<^verbatim>\<open>
  def decompressCheBINames():
      names = pd.read_csv("./names_3star.tsv", delimiter="\t")
      names.drop(columns=["ID", "TYPE", "SOURCE", "ADAPTED", "LANGUAGE"], inplace=True)
      names.columns=["Compound ID", "Name"]
      names["Compound ID"] = names["Compound ID"].astype('int')
      names.sort_values(by="Compound ID", inplace=True)
      names.to_csv("./chebiNames.csv", index=False)
  \<close>
\<close>

definition decompressCheBINames :: "fs \<Rightarrow> error + fs" where
  "decompressCheBINames files =
     (case read_csv files ''./names_3star.tsv'' of
        Inl e \<Rightarrow> Inl e
      | Inr names \<Rightarrow>
     (case drop_columns [''ID'', ''TYPE'', ''SOURCE'', ''ADAPTED'', ''LANGUAGE''] names of
        Inl e \<Rightarrow> Inl e
      | Inr names \<Rightarrow>
     (case set_columns [''Compound ID'', ''Name''] names of
        Inl e \<Rightarrow> Inl e
      | Inr names \<Rightarrow>
     (case astype_int_column ''Compound ID'' names of
        Inl e \<Rightarrow> Inl e
      | Inr names \<Rightarrow>
     (case sort_values ''Compound ID'' names of
        Inl e \<Rightarrow> Inl e
      | Inr names \<Rightarrow> Inr (to_csv names ''./chebiNames.csv'' False files))))))"

text \<open>
  \<^verbatim>\<open>
  def decompressCheBIFormulas():
      formulas = pd.read_csv("https://ftp.ebi.ac.uk/.../chemical_data.tsv", delimiter="\t")
      formulas.drop(columns=["ID", "SOURCE"], inplace=True)
      formulas.columns=["Compound ID", "Type", "Formula"]
      formulas.drop(formulas[formulas["Type"] != "FORMULA"].index, inplace=True)
      formulas.drop(columns=["Type"], inplace=True)
      formulas["Compound ID"] = formulas["Compound ID"].astype('int')
      formulas.sort_values(by="Compound ID", inplace=True)
      formulas.to_csv("./chebiFormulas.csv", index=False)
  \<close>
  The remote source is a file of the file system under its URL.
\<close>

definition chemical_data_url :: string where
  "chemical_data_url =
     ''https://ftp.ebi.ac.uk/pub/databases/chebi/Flat_file_tab_delimited/chemical_data.tsv''"

definition decompressCheBIFormulas :: "fs \<Rightarrow> error + fs" where
  "decompressCheBIFormulas files =
     (case read_csv files chemical_data_url of
        Inl e \<Rightarrow> Inl e
      | Inr formulas \<Rightarrow>
     (case drop_columns [''ID'', ''SOURCE''] formulas of
        Inl e \<Rightarrow> Inl e
      | Inr formulas \<Rightarrow>
     (case set_columns [''Compound ID'', ''Type'', ''Formula''] formulas of
        Inl e \<Rightarrow> Inl e
      | Inr formulas \<Rightarrow>
     (case keep_type ''FORMULA'' formulas of
        Inl e \<Rightarrow> Inl e
      | Inr formulas \<Rightarrow>
     (case drop_columns [''Type''] formulas of
        Inl e \<Rightarrow> Inl e
      | Inr formulas \<Rightarrow>
     (case astype_int_column ''Compound ID'' formulas of
        Inl e \<Rightarrow> Inl e
      | Inr formulas \<Rightarrow>
     (case sort_values ''Compound ID'' formulas of
        Inl e \<Rightarrow> Inl e
      | Inr formulas \<Rightarrow> Inr (to_csv formulas ''./chebiFormulas.csv'' False files))))))))"

text \<open>
  \<^verbatim>\<open>
  def decompressCheBICAS():
      cas = pd.read_csv("https://ftp.ebi.ac.uk/.../database_accession.tsv", delimiter="\t")
      cas.drop(columns=["ID", "SOURCE"], inplace=True)
      cas.columns = ["Compound ID", "Type", "Accession Number"]
      cas.drop(cas.index[[cas["Type"] != "CAS Registry Number"]], inplace=True)
      cas.drop(columns=["Type"], inplace=True)
      cas["Compound ID"] = cas["Compound ID"].astype('int')
      cas.sort_values(by="Compound ID", inplace=True)
      cas.to_csv("./chebiCAS.csv", index=False)
  \<close>
  Unlike the sibling function, this one does not select rows of the frame by the mask: it
  indexes \<^verbatim>\<open>cas.index\<close> with a list that holds the mask. The list of one mask is a
  two-dimensional boolean array, the index has one dimension, and the indexing raises an
  index error, whatever the mask holds. The lines after it are not reached.
\<close>

definition type_mask :: "string \<Rightarrow> frame \<Rightarrow> error + bool list" where
  "type_mask lit df =
     (if ''Type'' \<notin> set (columns df) then Inl (KeyError ''Type'')
      else Inr (map (\<lambda>lr. getitem (columns df) (snd lr) ''Type'' \<noteq> Inr (CStr lit)) (rows df)))"

definition index_by_mask_list :: "nat list \<Rightarrow> bool list list \<Rightarrow> error + nat list" where
  "index_by_mask_list labels masks = Inl IndexError"

definition drop_labels :: "nat list \<Rightarrow> frame \<Rightarrow> error + frame" where
  "drop_labels ls df =
     (case filter (\<lambda>l. l \<notin> set (map fst (rows df))) ls of
        l # _ \<Rightarrow> Inl (KeyError (str_nat l))
      | [] \<Rightarrow> Inr (df\<lparr>rows := filter (\<lambda>lr. fst lr \<notin> set ls) (rows df)\<rparr>))"

definition database_accession_url :: string where
  "database_accession_url =
     ''https://ftp.ebi.ac.uk/pub/databases/chebi/Flat_file_tab_delimited/database_accession.tsv''"

definition decompressCheBICAS :: "fs \<Rightarrow> error + fs" where
  "decompressCheBICAS files =
     (case read_csv files database_accession_url of
        Inl e \<Rightarrow> Inl e
      | Inr cas \<Rightarrow>
     (case drop_columns [''ID'', ''SOURCE''] cas of
        Inl e \<Rightarrow> Inl e
      | Inr cas \<Rightarrow>
     (case set_columns [''Compound ID'', ''Type'', ''Accession Number''] cas of
        Inl e \<Rightarrow> Inl e
      | Inr cas \<Rightarrow>
     (case type_mask ''CAS Registry Number'' cas of
        Inl e \<Rightarrow> Inl e
      | Inr flags \<Rightarrow>
     (case index_by_mask_list (map fst (rows cas)) [flags] of
        Inl e \<Rightarrow> Inl e
      | Inr labels \<Rightarrow>
     (case drop_labels labels cas of
        Inl e \<Rightarrow> Inl e
      | Inr cas \<Rightarrow>
     (case drop_columns [''Type''] cas of
        Inl e \<Rightarrow> Inl e
      | Inr cas \<Rightarrow>
     (case astype_int_column ''Compound ID'' cas of
        Inl e \<Rightarrow> Inl e
      | Inr cas \<Rightarrow>
     (case sort_values ''Compound ID'' cas of
        Inl e \<Rightarrow> Inl e
      | Inr cas \<Rightarrow> Inr (to_csv cas ''./chebiCAS.csv'' False files))))))))))"

section \<open>Filter\<close>

text \<open>
  \<^verbatim>\<open>
  def filter():
      batch = pd.read_csv("./cid-synonyms01.csv")
      for index, row in batch.iterrows():
          if "CHEMBL" in row["Synonym"]:
              batch.drop(axis=0, index=index, inplace=True)
      batch.to_csv("./cid-synonyms01.csv")
  \<close>
  \<^verbatim>\<open>sub in x\<close> is the substring test on a string and raises a type error on a number, a
  boolean or NaN. The last line passes no \<^verbatim>\<open>index=False\<close>.
\<close>

fun contains :: "string \<Rightarrow> string \<Rightarrow> bool" where
  "contains sub [] = (sub = [])"
| "contains sub (c # cs) = (take (length sub) (c # cs) = sub \<or> contains sub cs)"

definition py_in :: "string \<Rightarrow> cell \<Rightarrow> error + bool" where
  "py_in sub x = (case x of CStr s \<Rightarrow> Inr (contains sub s) | _ \<Rightarrow> Inl TypeError)"

fun filter_loop :: "string list \<Rightarrow> (nat \<times> cell list) list \<Rightarrow> frame \<Rightarrow> error + frame" where
  "filter_loop cols [] batch = Inr batch"
| "filter_loop cols ((index, row) # rest) batch =
     (case getitem cols row ''Synonym'' of
        Inl e \<Rightarrow> Inl e
      | Inr v \<Rightarrow>
          (case py_in ''CHEMBL'' v of
             Inl e \<Rightarrow> Inl e
           | Inr True \<Rightarrow>
               (case drop_index index batch of
                  Inl e \<Rightarrow> Inl e
                | Inr batch' \<Rightarrow> filter_loop cols rest batch')
           | Inr False \<Rightarrow> filter_loop cols rest batch))"

definition filter_synonyms :: "fs \<Rightarrow> error + fs" where
  "filter_synonyms files =
     (case read_csv files ''./cid-synonyms01.csv'' of
        Inl e \<Rightarrow> Inl e
      | Inr batch \<Rightarrow>
          (case filter_loop (columns batch) (rows batch) batch of
             Inl e \<Rightarrow> Inl e
           | Inr batch' \<Rightarrow> Inr (to_csv batch' ''./cid-synonyms01.csv'' True files)))"

section \<open>Case normalizer\<close>

text \<open>
  \<^verbatim>\<open>
  def lowercaseNames(input):
      data = pd.read_csv(input)
      data["Name"] = data["Name"].str.upper()
      data.to_csv("./chebiChemicalsCASSetUPPER.csv", index=False)
  \<close>
  The \<^verbatim>\<open>.str\<close> accessor exists on a column of texts (possibly with missing values among
  them) and on a column without rows; on a column of numbers, of booleans or of missing
  values only, taking it raises an attribute error. \<^verbatim>\<open>upper()\<close> maps a text to its
  uppercase form and anything else to NaN.
\<close>

definition column_cells :: "string \<Rightarrow> frame \<Rightarrow> error + cell list" where
  "column_cells name df = collect (map (\<lambda>lr. getitem (columns df) (snd lr) name) (rows df))"

definition upper_cell :: "cell \<Rightarrow> cell" where
  "upper_cell c = (case c of CStr s \<Rightarrow> CStr (upper s) | _ \<Rightarrow> CNaN)"

definition str_upper :: "cell list \<Rightarrow> error + cell list" where
  "str_upper cells =
     (if cells = [] \<or> list_ex is_str cells then Inr (map upper_cell cells) else Inl AttributeError)"

definition lowercaseNames :: "fs \<Rightarrow> string \<Rightarrow> error + fs" where
  "lowercaseNames files input =
     (case read_csv files input of
        Inl e \<Rightarrow> Inl e
      | Inr data \<Rightarrow>
     (if ''Name'' \<notin> set (columns data) then Inl (KeyError ''Name'')
      else
     (case column_cells ''Name'' data of
        Inl e \<Rightarrow> Inl e
      | Inr cells \<Rightarrow>
     (case str_upper cells of
        Inl e \<Rightarrow> Inl e
      | Inr cells' \<Rightarrow>
     (case set_column ''Name'' cells' data of
        Inl e \<Rightarrow> Inl e
      | Inr data' \<Rightarrow> Inr (to_csv data' ''./chebiChemicalsCASSetUPPER.csv'' False files))))))"

section \<open>Merger\<close>

text \<open>
  A Python \<^verbatim>\<open>dict\<close> keyed by cells. Keys are compared by value: \<^verbatim>\<open>True\<close> and \<^verbatim>\<open>1\<close> are
  the same key, and so are \<^verbatim>\<open>False\<close> and \<^verbatim>\<open>0\<close>. Every NaN that \<^verbatim>\<open>iterrows()\<close> yields is
  a float object of its own that equals nothing, so an entry stored under a NaN is never
  found again by \<^verbatim>\<open>get\<close>; the model does not keep such entries.
\<close>

type_synonym dict = "cell \<rightharpoonup> cell"

definition hash_key :: "cell \<Rightarrow> cell option" where
  "hash_key k = (case k of CNaN \<Rightarrow> None | CBool b \<Rightarrow> Some (CInt (if b then 1 else 0)) | _ \<Rightarrow> Some k)"

definition dict_set :: "dict \<Rightarrow> cell \<Rightarrow> cell \<Rightarrow> dict" where
  "dict_set d k v = (case hash_key k of None \<Rightarrow> d | Some h \<Rightarrow> d(h \<mapsto> v))"

definition dict_get :: "dict \<Rightarrow> cell \<Rightarrow> cell option" where
  "dict_get d k = (case hash_key k of None \<Rightarrow> None | Some h \<Rightarrow> d h)"

text \<open>
  \<^verbatim>\<open>
  def mergeCSVCheBI():
      formulaCSV = pd.read_csv("./chebiFormulas.csv")
      # add formulas
      formulas = {}
      for index, row in formulaCSV.iterrows():
          formulas[row["Compound ID"]] = row["Formula"]

      casCSV = dd.read_csv("./chebiCAS.csv");
      cas = {}
      for index, row in casCSV.iterrows():
          cas[row["Compound ID"]] = row["Accession Number"]
  \<close>
  The two loops differ in the name of the value column only; \<open>index_loop\<close> is both, with
  that name as its argument. Python evaluates the right-hand side of the assignment
  before the key.
\<close>

fun index_loop :: "string \<Rightarrow> string list \<Rightarrow> (nat \<times> cell list) list \<Rightarrow> dict \<Rightarrow> error + dict" where
  "index_loop valcol cols [] d = Inr d"
| "index_loop valcol cols ((index, row) # rest) d =
     (case getitem cols row valcol of
        Inl e \<Rightarrow> Inl e
      | Inr v \<Rightarrow>
          (case getitem cols row ''Compound ID'' of
             Inl e \<Rightarrow> Inl e
           | Inr k \<Rightarrow> index_loop valcol cols rest (dict_set d k v)))"

text \<open>
  \<^verbatim>\<open>
      formulaList = []
      casList = []
      missing = []

      synonyms = pd.read_csv("./chebiNames.csv")
      for index, row in synonyms.iterrows():
          # check the ID of the row
          # lookup the formula of that ID
          chosenFormula = formulas.get(row["Compound ID"])
          if chosenFormula:
              formulaList.append(chosenFormula)
          else:
              formulaList.append("MISSING")
              missing.append(row["Name"])

          chosenCAS = cas.get(row["Compound ID"])
          if chosenCAS:
              casList.append(chosenCAS)
          else:
              casList.append("MISSING")

      synonyms["Formula"] = formulaList;
      synonyms["CAS"] = casList;
      synonyms.to_csv("./chebiChemicalsCAS.csv", index=False)
  \<close>
  \<^verbatim>\<open>if chosenFormula:\<close> tests the truth value of what \<^verbatim>\<open>get\<close> returned: \<^verbatim>\<open>None\<close> is false,
  and so is a value that is \<^verbatim>\<open>0\<close>, \<^verbatim>\<open>False\<close> or the empty string.
\<close>

definition truthy_opt :: "cell option \<Rightarrow> bool" where
  "truthy_opt x = (case x of None \<Rightarrow> False | Some v \<Rightarrow> truthy v)"

definition chosen_or_missing :: "cell option \<Rightarrow> cell" where
  "chosen_or_missing x = (case x of Some v \<Rightarrow> v | None \<Rightarrow> CStr ''MISSING'')"

fun merge_loop ::
  "string list \<Rightarrow> (nat \<times> cell list) list \<Rightarrow> dict \<Rightarrow> dict \<Rightarrow> cell list \<times> cell list \<times> cell list
     \<Rightarrow> error + cell list \<times> cell list \<times> cell list"
where
  "merge_loop cols [] formulas cas st = Inr st"
| "merge_loop cols ((index, row) # rest) formulas cas (formulaList, casList, missing) =
     (case getitem cols row ''Compound ID'' of
        Inl e \<Rightarrow> Inl e
      | Inr k \<Rightarrow>
          (let chosenFormula = dict_get formulas k in
           (case (if truthy_opt chosenFormula
                  then Inr (formulaList @ [chosen_or_missing chosenFormula], missing)
                  else (case getitem cols row ''Name'' of
                          Inl e \<Rightarrow> Inl e
                        | Inr n \<Rightarrow> Inr (formulaList @ [CStr ''MISSING''], missing @ [n]))) of
              Inl e \<Rightarrow> Inl e
            | Inr (formulaList', missing') \<Rightarrow>
                (let chosenCAS = dict_get cas k;
                     casList' = (if truthy_opt chosenCAS
                                 then casList @ [chosen_or_missing chosenCAS]
                                 else casList @ [CStr ''MISSING''])
                 in merge_loop cols rest formulas cas (formulaList', casList', missing')))))"

definition mergeCSVCheBI :: "fs \<Rightarrow> error + fs" where
  "mergeCSVCheBI files =
     (case read_csv files ''./chebiFormulas.csv'' of
        Inl e \<Rightarrow> Inl e
      | Inr formulaCSV \<Rightarrow>
     (case index_loop ''Formula'' (columns formulaCSV) (rows formulaCSV) Map.empty of
        Inl e \<Rightarrow> Inl e
      | Inr formulas \<Rightarrow>
     (case read_csv files ''./chebiCAS.csv'' of
        Inl e \<Rightarrow> Inl e
      | Inr casCSV \<Rightarrow>
     (case index_loop ''Accession Number'' (columns casCSV) (rows casCSV) Map.empty of
        Inl e \<Rightarrow> Inl e
      | Inr cas \<Rightarrow>
     (case read_csv files ''./chebiNames.csv'' of
        Inl e \<Rightarrow> Inl e
      | Inr synonyms \<Rightarrow>
     (case merge_loop (columns synonyms) (rows synonyms) formulas cas ([], [], []) of
        Inl e \<Rightarrow> Inl e
      | Inr (formulaList, casList, missing) \<Rightarrow>
     (case set_column ''Formula'' formulaList synonyms of
        Inl e \<Rightarrow> Inl e
      | Inr synonyms \<Rightarrow>
     (case set_column ''CAS'' casList synonyms of
        Inl e \<Rightarrow> Inl e
      | Inr synonyms \<Rightarrow> Inr (to_csv synonyms ''./chebiChemicalsCAS.csv'' False files)))))))))"

section \<open>Database loader\<close>

text \<open>
  The relational store: a database file holds its tables, each under the name it was
  created with; a table has its column names and its rows. SQLite compares the names of
  tables and of columns without regard to the case of ASCII letters, so no two tables of
  a database have names that are equal up to case, and column names are compared in
  lowercase. The world of \<open>makeDatabase\<close> is the file system, the database files, the
  store paths that cannot be opened (a directory that does not exist, a file that may
  not be written) and the connections that have been opened and not closed (each by the
  path it was opened on).
\<close>

record table =
  t_columns :: "string list"
  t_rows :: "cell list list"

type_synonym database = "(string \<times> table) list"

record world =
  w_files :: fs
  w_stores :: "string \<rightharpoonup> database"
  w_unopenable :: "string list"
  w_handles :: "string list"

text \<open>\<^verbatim>\<open>sqlite3.connect(output)\<close> opens the database file, creating it when it is absent,
  and raises when the path cannot be opened.\<close>

definition connect :: "string \<Rightarrow> world \<Rightarrow> error + world" where
  "connect output w =
     (if output \<in> set (w_unopenable w) then Inl OperationalError
      else Inr (w\<lparr>w_stores := (case w_stores w output of
                                  None \<Rightarrow> (w_stores w)(output \<mapsto> [])
                                | Some db \<Rightarrow> w_stores w),
                   w_handles := output # w_handles w\<rparr>))"

definition close :: "string \<Rightarrow> world \<Rightarrow> world" where
  "close output w = w\<lparr>w_handles := remove1 output (w_handles w)\<rparr>"

text \<open>
  \<^verbatim>\<open>data.to_sql(name, connection, if_exists='append', index=False)\<close>. pandas first asks
  the store whether a table of exactly this name is there. If not, it creates the table
  with the frame's columns and inserts the rows; the store refuses the creation when a
  table is there whose name differs in case only, and when two column names are equal
  up to case. If the table is there, the rows are inserted by column name, a column the
  frame does not have being left NULL (written \<open>CNaN\<close>), and the store refuses a column
  the table does not have. Where two columns of the frame have the name of one column of
  the table, the model inserts the first; nothing below relies on that.
\<close>

definition align :: "string list \<Rightarrow> string list \<Rightarrow> cell list \<Rightarrow> cell list" where
  "align tcols cols r =
     map (\<lambda>c. case map_of (zip (map lower cols) r) (lower c) of Some v \<Rightarrow> v | None \<Rightarrow> CNaN) tcols"

definition put_table :: "string \<Rightarrow> table \<Rightarrow> database \<Rightarrow> database" where
  "put_table name t db = map (\<lambda>nt. if fst nt = name then (name, t) else nt) db"

definition to_sql :: "frame \<Rightarrow> string \<Rightarrow> database \<Rightarrow> error + database" where
  "to_sql df name db =
     (case map_of db name of
        None \<Rightarrow>
          if lower name \<in> set (map (\<lambda>nt. lower (fst nt)) db) then Inl OperationalError
          else if distinct (map lower (columns df))
          then Inr (db @ [(name, \<lparr>t_columns = columns df, t_rows = map snd (rows df)\<rparr>)])
          else Inl OperationalError
      | Some t \<Rightarrow>
          if list_all (\<lambda>c. lower c \<in> set (map lower (t_columns t))) (columns df)
          then Inr (put_table name
                      (t\<lparr>t_rows := t_rows t
                           @ map (\<lambda>lr. align (t_columns t) (columns df) (snd lr)) (rows df)\<rparr>) db)
          else Inl OperationalError)"

text \<open>
  \<^verbatim>\<open>
  def makeDatabase(input, output, outputName):
      data = pd.read_csv(input)
      chemicals = sqlite3.connect(output)
      data.to_sql(outputName, chemicals, if_exists='append', index=False)
      chemicals.close()
  \<close>
  The result is the error raised, if any, and the world the call leaves behind.
\<close>

definition makeDatabase :: "string \<Rightarrow> string \<Rightarrow> string \<Rightarrow> world \<Rightarrow> error option \<times> world" where
  "makeDatabase input output outputName w =
     (case read_csv (w_files w) input of
        Inl e \<Rightarrow> (Some e, w)
      | Inr data \<Rightarrow>
          (case connect output w of
             Inl e \<Rightarrow> (Some e, w)
           | Inr w1 \<Rightarrow>
               (case to_sql data outputName
                       (case w_stores w1 output of Some db \<Rightarrow> db | None \<Rightarrow> []) of
                  Inl e \<Rightarrow> (Some e, w1)
                | Inr db' \<Rightarrow> (None, close output (w1\<lparr>w_stores := (w_stores w1)(output \<mapsto> db')\<rparr>)))))"

section \<open>Notions used in the statements\<close>

text \<open>The key under which the Deduplicator remembers a row: \<^verbatim>\<open>str(row["Name"]).lower()\<close>.\<close>

definition lowered_name :: "string list \<Rightarrow> cell list \<Rightarrow> error + string" where
  "lowered_name cols r =
     (case getitem cols r ''Name'' of Inl e \<Rightarrow> Inl e | Inr v \<Rightarrow> Inr (lower (py_str v)))"

text \<open>The elements of a list whose key is not among the keys seen before them.\<close>

fun keep :: "('a \<Rightarrow> 'k) \<Rightarrow> 'k set \<Rightarrow> 'a list \<Rightarrow> 'a list" where
  "keep k seen [] = []"
| "keep k seen (x # xs) =
     (if k x \<in> seen then keep k seen xs else x # keep k (insert (k x) seen) xs)"

text \<open>A Name that is missing, or a text that lowercases to \<open>nan\<close>.\<close>

definition nan_like :: "cell \<Rightarrow> bool" where
  "nan_like c = (case c of CNaN \<Rightarrow> True | CStr s \<Rightarrow> lower s = ''nan'' | _ \<Rightarrow> False)"

text \<open>The cell the Merger writes for a key, given a lookup index.\<close>

definition merge_cell :: "dict \<Rightarrow> cell \<Rightarrow> cell" where
  "merge_cell d k =
     (if truthy_opt (dict_get d k) then chosen_or_missing (dict_get d k) else CStr ''MISSING'')"

text \<open>A frame is rectangular when every row has one cell for each column.\<close>

definition rectangular :: "frame \<Rightarrow> bool" where
  "rectangular df = list_all (\<lambda>lr. length (snd lr) = length (columns df)) (rows df)"

section \<open>A sample file system\<close>

text \<open>The five sources of the Decompressors, two data lines each, with the identifiers
  in descending order.\<close>

definition sample_sources :: fs where
  "sample_sources =
     [''./names_3star.tsv'' \<mapsto>
        \<lparr>header = [''ID'', ''COMPOUND_ID'', ''TYPE'', ''SOURCE'', ''NAME'', ''ADAPTED'', ''LANGUAGE''],
         body = [[CInt 1, CInt 5, CStr ''NAME'', CStr ''ChEBI'', CStr ''water'', CStr ''F'', CStr ''en''],
                 [CInt 2, CInt 3, CStr ''NAME'', CStr ''ChEBI'', CStr ''salt'', CStr ''F'', CStr ''en'']]\<rparr>,
      chemical_data_url \<mapsto>
        \<lparr>header = [''ID'', ''COMPOUND_ID'', ''SOURCE'', ''TYPE'', ''CHEMICAL_DATA''],
         body = [[CInt 1, CInt 5, CStr ''ChEBI'', CStr ''FORMULA'', CStr ''H2O''],
                 [CInt 2, CInt 3, CStr ''ChEBI'', CStr ''FORMULA'', CStr ''ClNa'']]\<rparr>,
      database_accession_url \<mapsto>
        \<lparr>header = [''ID'', ''COMPOUND_ID'', ''SOURCE'', ''TYPE'', ''ACCESSION_NUMBER''],
         body = [[CInt 1, CInt 5, CStr ''ChEBI'', CStr ''CAS Registry Number'', CStr ''7732-18-5''],
                 [CInt 2, CInt 3, CStr ''ChEBI'', CStr ''CAS Registry Number'', CStr ''7647-14-5'']]\<rparr>,
      ''./cid-mass'' \<mapsto>
        \<lparr>header = [], body = [[CInt 2, CStr ''H2O'', CInt 18, CInt 18],
                               [CInt 1, CStr ''CH4'', CInt 16, CInt 16]]\<rparr>,
      ''./cid-synonyms'' \<mapsto>
        \<lparr>header = [], body = [[CInt 2, CStr ''water''], [CInt 1, CStr ''methane'']]\<rparr>]"

section \<open>Facts about frames read from files\<close>

lemma read_csv_frame:
  assumes "read_csv files path = Inr data"
  shows "distinct (map fst (rows data))"
    and "list_all (\<lambda>lr. length (snd lr) = length (columns data)) (rows data)"
    and "map fst (rows data) = [0..<length (rows data)]"
proof -
  from assms obtain f where f: "files path = Some f" "header f \<noteq> []"
      "\<not> list_ex (\<lambda>r. length (header f) < length r) (body f)"
      and data: "data = \<lparr>columns = header f,
                    rows = zip [0..<length (body f)] (map (pad (length (header f))) (body f))\<rparr>"
    by (auto simp: read_csv_def split: option.splits if_splits)
  show "distinct (map fst (rows data))" by (simp add: data)
  show "map fst (rows data) = [0..<length (rows data)]" by (simp add: data)
  have "\<And>r. r \<in> set (body f) \<Longrightarrow> length (pad (length (header f)) r) = length (header f)"
    using f(3) by (auto simp: pad_def list_ex_iff)
  then show "list_all (\<lambda>lr. length (snd lr) = length (columns data)) (rows data)"
    by (auto simp: data list_all_iff dest!: set_zip_rightD)
qed

lemma getitem_present:
  assumes "name \<in> set cols" and "length r = length cols"
  shows "\<exists>v. getitem cols r name = Inr v"
proof -
  have "name \<in> dom (map_of (zip cols r))"
    using assms by simp
  then show ?thesis
    by (auto simp: getitem_def)
qed

lemma read_csv_getitem:
  assumes "read_csv files path = Inr data" and "name \<in> set (columns data)"
  shows "list_all (\<lambda>lr. \<exists>v. getitem (columns data) (snd lr) name = Inr v) (rows data)"
  using read_csv_frame(2)[OF assms(1)] assms(2)
  by (auto simp: list_all_iff intro!: getitem_present)

lemma filter_other_labels:
  "l \<notin> fst ` set xs \<Longrightarrow> filter (\<lambda>lr. fst lr \<noteq> l) xs = xs"
  by (induction xs) auto

lemma drop_index_present:
  assumes "rows data = K @ (l, r) # rest" and "distinct (map fst (K @ (l, r) # rest))"
  shows "drop_index l data = Inr (data\<lparr>rows := K @ rest\<rparr>)"
proof -
  have "l \<notin> fst ` set K" and "l \<notin> fst ` set rest"
    using assms(2) by auto
  then have "filter (\<lambda>lr. fst lr \<noteq> l) (K @ (l, r) # rest) = K @ rest"
    by (simp add: filter_other_labels)
  then show ?thesis
    using assms(1) by (simp add: drop_index_def)
qed

section \<open>Deduplicator: first occurrences\<close>

lemma keep_index:
  "keep k seen xs =
     map (\<lambda>i. xs ! i) (filter (\<lambda>i. k (xs ! i) \<notin> seen \<union> k ` set (take i xs)) [0..<length xs])"
proof (induction xs arbitrary: seen)
  case Nil
  then show ?case by simp
next
  case (Cons x xs)
  have upt: "[0..<length (x # xs)] = 0 # map Suc [0..<length xs]"
    by (simp add: upt_conv_Cons map_Suc_upt del: upt_Suc)
  have eq: "k x \<in> seen \<Longrightarrow> (\<lambda>i. k (xs ! i) \<notin> seen \<union> k ` set (take i xs))
      = (\<lambda>i. k (xs ! i) \<notin> seen \<and> k (xs ! i) \<noteq> k x \<and> k (xs ! i) \<notin> k ` set (take i xs))"
    by (auto simp: fun_eq_iff)
  have eq2: "(\<lambda>i. k (xs ! i) \<notin> insert (k x) seen \<union> k ` set (take i xs))
      = (\<lambda>i. k (xs ! i) \<notin> seen \<and> k (xs ! i) \<noteq> k x \<and> k (xs ! i) \<notin> k ` set (take i xs))"
    by (auto simp: fun_eq_iff)
  show ?case
    unfolding upt using eq eq2
    by (simp add: Cons.IH filter_map o_def)
qed

lemma keep_keys_fresh: "x \<in> set (keep k seen xs) \<Longrightarrow> k x \<notin> seen"
  by (induction xs arbitrary: seen) (auto split: if_splits)

lemma keep_distinct: "distinct (map k (keep k seen xs))"
  by (induction xs arbitrary: seen) (auto dest: keep_keys_fresh)

lemma keep_map_snd:
  "map snd (keep (\<lambda>lr. k (snd lr)) seen lrs) = keep k seen (map snd lrs)"
  by (induction lrs arbitrary: seen) auto

lemma removeDuplicates_loop_keep:
  assumes "rows data = K @ rest"
    and "distinct (map fst (K @ rest))"
    and "list_all (\<lambda>lr. \<exists>v. getitem cols (snd lr) ''Name'' = Inr v) rest"
  shows "\<exists>names'. removeDuplicates_loop cols rest (data, names) =
           Inr (data\<lparr>rows := K @ keep (\<lambda>lr. lowered_name cols (snd lr)) (Inr ` names) rest\<rparr>, names')"
  using assms
proof (induction rest arbitrary: K data names)
  case Nil
  then show ?case by simp
next
  case (Cons lr rest)
  obtain l r where lr: "lr = (l, r)" by (cases lr)
  from Cons.prems(3) lr obtain v where v: "getitem cols r ''Name'' = Inr v"
    by auto
  have key: "lowered_name cols r = Inr (lower (py_str v))"
    by (simp add: lowered_name_def v)
  show ?case
  proof (cases "lower (py_str v) \<in> names")
    case True
    have d: "drop_index l data = Inr (data\<lparr>rows := K @ rest\<rparr>)"
      using Cons.prems(1,2) lr by (intro drop_index_present) auto
    have "\<exists>names'. removeDuplicates_loop cols rest (data\<lparr>rows := K @ rest\<rparr>, names) =
           Inr (data\<lparr>rows := K @ rest\<rparr>\<lparr>rows := K @ keep (\<lambda>lr. lowered_name cols (snd lr)) (Inr ` names) rest\<rparr>, names')"
      using Cons.prems by (intro Cons.IH) auto
    then show ?thesis
      using True lr v key d by (simp add: image_iff)
  next
    case False
    have "\<exists>names'. removeDuplicates_loop cols rest (data, insert (lower (py_str v)) names) =
           Inr (data\<lparr>rows := (K @ [lr]) @ keep (\<lambda>lr. lowered_name cols (snd lr)) (Inr ` insert (lower (py_str v)) names) rest\<rparr>, names')"
      using Cons.prems by (intro Cons.IH) auto
    then show ?thesis
      using False lr v key by (auto simp: image_iff)
  qed
qed

lemma removeDuplicates_frame_keep:
  assumes "read_csv files input = Inr data" and "''Name'' \<in> set (columns data)"
  shows "removeDuplicates_frame files input =
           Inr (data\<lparr>rows := keep (\<lambda>lr. lowered_name (columns data) (snd lr)) {} (rows data)\<rparr>)"
proof -
  from removeDuplicates_loop_keep[of data "[]" "rows data" "columns data" "{}"]
    read_csv_frame(1)[OF assms(1)] read_csv_getitem[OF assms]
  obtain names' where "removeDuplicates_loop (columns data) (rows data) (data, {}) =
      Inr (data\<lparr>rows := keep (\<lambda>lr. lowered_name (columns data) (snd lr)) {} (rows data)\<rparr>, names')"
    by auto
  then show ?thesis
    by (simp add: removeDuplicates_frame_def assms(1))
qed

text \<open>
  C3. For a table that can be read and has a Name column, \<open>removeDuplicates\<close> succeeds and
  writes, under the table's header, exactly the rows whose key \<^verbatim>\<open>str(Name).lower()\<close> is
  not the key of an earlier row, in their original order; no two written rows have the
  same key; and the rows Water, WATER, Salt give Water, Salt.
\<close>

theorem removeDuplicates_first_occurrence:
  assumes "read_csv files input = Inr data" and "''Name'' \<in> set (columns data)"
  shows "(\<exists>out. removeDuplicates files input =
             Inr (files(''./chebiChemicalsCASSet.csv'' \<mapsto> \<lparr>header = columns data, body = out\<rparr>))
         \<and> out = (let b = map snd (rows data); k = lowered_name (columns data)
                  in map (\<lambda>i. b ! i) (filter (\<lambda>i. k (b ! i) \<notin> k ` set (take i b)) [0..<length b]))
         \<and> distinct (map (lowered_name (columns data)) out))
       \<and> removeDuplicates
           [''names.csv'' \<mapsto> \<lparr>header = [''Name''],
                                 body = [[CStr ''Water''], [CStr ''WATER''], [CStr ''Salt'']]\<rparr>]
           ''names.csv''
         = Inr [''names.csv'' \<mapsto> \<lparr>header = [''Name''],
                                     body = [[CStr ''Water''], [CStr ''WATER''], [CStr ''Salt'']]\<rparr>,
                ''./chebiChemicalsCASSet.csv'' \<mapsto>
                   \<lparr>header = [''Name''], body = [[CStr ''Water''], [CStr ''Salt'']]\<rparr>]"
proof -
  let ?k = "lowered_name (columns data)"
  let ?out = "keep ?k {} (map snd (rows data))"
  have "removeDuplicates files input =
          Inr (files(''./chebiChemicalsCASSet.csv'' \<mapsto> \<lparr>header = columns data, body = ?out\<rparr>))"
    by (simp add: removeDuplicates_def removeDuplicates_frame_keep[OF assms] to_csv_def keep_map_snd)
  moreover have "?out = (let b = map snd (rows data); k = ?k
                  in map (\<lambda>i. b ! i) (filter (\<lambda>i. k (b ! i) \<notin> k ` set (take i b)) [0..<length b]))"
    using keep_index[of ?k "{}" "map snd (rows data)"] by (simp add: Let_def)
  moreover have "distinct (map ?k ?out)"
    by (rule keep_distinct)
  moreover have "removeDuplicates
           [''names.csv'' \<mapsto> \<lparr>header = [''Name''],
                                 body = [[CStr ''Water''], [CStr ''WATER''], [CStr ''Salt'']]\<rparr>]
           ''names.csv''
         = Inr [''names.csv'' \<mapsto> \<lparr>header = [''Name''],
                                     body = [[CStr ''Water''], [CStr ''WATER''], [CStr ''Salt'']]\<rparr>,
                ''./chebiChemicalsCASSet.csv'' \<mapsto>
                   \<lparr>header = [''Name''], body = [[CStr ''Water''], [CStr ''Salt'']]\<rparr>]"
    by (simp add: removeDuplicates_def removeDuplicates_frame_def read_csv_def pad_def
        getitem_def lower_def lower_char_def upper_letters_def lower_letters_def py_str_def
        drop_index_def to_csv_def)
  ultimately show ?thesis by blast
qed

theorem removeDuplicates_first_occurrence_witness:
  "read_csv [''names.csv'' \<mapsto> \<lparr>header = [''Name''], body = [[CStr ''Water''], [CStr ''WATER'']]\<rparr>]
       ''names.csv''
     = Inr \<lparr>columns = [''Name''], rows = [(0, [CStr ''Water'']), (1, [CStr ''WATER''])]\<rparr>
   \<and> ''Name'' \<in> set [''Name'']
   \<and> removeDuplicates
       [''names.csv'' \<mapsto> \<lparr>header = [''Name''], body = [[CStr ''Water''], [CStr ''WATER'']]\<rparr>]
       ''names.csv''
     = Inr ([''names.csv'' \<mapsto> \<lparr>header = [''Name''], body = [[CStr ''Water''], [CStr ''WATER'']]\<rparr>,
             ''./chebiChemicalsCASSet.csv'' \<mapsto> \<lparr>header = [''Name''], body = [[CStr ''Water'']]\<rparr>])"
proof -
  let ?files = "[''names.csv'' \<mapsto> \<lparr>header = [''Name''], body = [[CStr ''Water''], [CStr ''WATER'']]\<rparr>]"
  let ?data = "\<lparr>columns = [''Name''], rows = [(0, [CStr ''Water'']), (1, [CStr ''WATER''])]\<rparr>"
  have r: "read_csv ?files ''names.csv'' = Inr ?data"
    by (simp add: read_csv_def pad_def)
  have n: "''Name'' \<in> set (columns ?data)"
    by simp
  have k: "lowered_name [''Name''] [CStr ''Water''] = Inr ''water''"
      "lowered_name [''Name''] [CStr ''WATER''] = Inr ''water''"
    by (simp_all add: lowered_name_def getitem_def lower_def lower_char_def upper_letters_def
        lower_letters_def py_str_def)
  have u: "[0..<2] = [0, Suc 0]"
    by (simp add: upt_rec)
  from removeDuplicates_first_occurrence[OF r n]
  have "removeDuplicates ?files ''names.csv'' =
          Inr (?files(''./chebiChemicalsCASSet.csv'' \<mapsto> \<lparr>header = [''Name''], body = [[CStr ''Water'']]\<rparr>))"
    by (simp add: Let_def u k)
  with r show ?thesis by simp
qed

section \<open>Deduplicator: missing names\<close>

lemma str_nat_not_nan: "lower (str_nat n) \<noteq> ''nan''"
proof (induction n rule: str_nat.induct)
  case (1 n)
  have d: "lower_char (digit_char m) \<noteq> CHR ''n''" for m
  proof -
    have "m mod 10 = 0 \<or> m mod 10 = 1 \<or> m mod 10 = 2 \<or> m mod 10 = 3 \<or> m mod 10 = 4
        \<or> m mod 10 = 5 \<or> m mod 10 = 6 \<or> m mod 10 = 7 \<or> m mod 10 = 8 \<or> m mod 10 = 9"
      by presburger
    then show ?thesis
      unfolding digit_char_def
      by (elim disjE) (simp_all add: lower_char_def upper_letters_def lower_letters_def)
  qed
  show ?case
    using d by (subst str_nat.simps) (auto simp: lower_def)
qed

lemma nan_like_key: "nan_like v \<longleftrightarrow> lower (py_str v) = ''nan''"
proof (cases v)
  case (CInt n)
  have "lower (str_int n) \<noteq> ''nan''"
    using str_nat_not_nan by (auto simp: str_int_def lower_def lower_char_def upper_letters_def lower_letters_def)
  then show ?thesis by (simp add: CInt nan_like_def py_str_def)
qed (auto simp: nan_like_def py_str_def lower_def lower_char_def upper_letters_def lower_letters_def)

lemma at_most_one_with_key:
  assumes "distinct (map k xs)" and "\<And>x. x \<in> set xs \<Longrightarrow> Q x \<Longrightarrow> k x = c"
  shows "length (filter Q xs) \<le> 1"
proof -
  have "distinct (map k (filter Q xs))"
    using assms(1) by (rule distinct_map_filter)
  moreover have "set (map k (filter Q xs)) \<subseteq> {c}"
    using assms(2) by auto
  ultimately have "length (map k (filter Q xs)) \<le> card {c}"
    by (metis card_mono distinct_card finite.emptyI finite.insertI)
  then show ?thesis by simp
qed

lemma removeDuplicates_frame_labels:
  assumes "read_csv files input = Inr data" and "''Name'' \<in> set (columns data)"
    and "removeDuplicates_frame files input = Inr out"
  shows "j \<in> fst ` set (rows out) \<longleftrightarrow>
           j < length (rows data) \<and>
           lowered_name (columns data) (snd (rows data ! j))
             \<notin> (\<lambda>lr. lowered_name (columns data) (snd lr)) ` set (take j (rows data))"
proof -
  let ?K = "\<lambda>lr. lowered_name (columns data) (snd lr)"
  have out: "rows out = keep ?K {} (rows data)"
    using removeDuplicates_frame_keep[OF assms(1,2)] assms(3) by auto
  have lab: "fst (rows data ! i) = i" if "i < length (rows data)" for i
    using read_csv_frame(3)[OF assms(1)] that
    by (metis add_0 nth_map nth_upt)
  have mem: "set (rows out) =
      (\<lambda>i. rows data ! i) ` {i. i < length (rows data) \<and> ?K (rows data ! i) \<notin> ?K ` set (take i (rows data))}"
    unfolding out keep_index by (simp add: set_eq_iff image_iff)
  show ?thesis
  proof
    assume "j \<in> fst ` set (rows out)"
    then obtain i where i: "i < length (rows data)"
        "?K (rows data ! i) \<notin> ?K ` set (take i (rows data))" "j = fst (rows data ! i)"
      unfolding mem by blast
    then show "j < length (rows data) \<and> ?K (rows data ! j) \<notin> ?K ` set (take j (rows data))"
      using lab by simp
  next
    assume j: "j < length (rows data) \<and> ?K (rows data ! j) \<notin> ?K ` set (take j (rows data))"
    then have "rows data ! j \<in> set (rows out)"
      unfolding mem by blast
    then have "fst (rows data ! j) \<in> fst ` set (rows out)"
      by (rule imageI)
    then show "j \<in> fst ` set (rows out)"
      using lab j by simp
  qed
qed

text \<open>
  C10. The key of a row is \<^verbatim>\<open>str(Name).lower()\<close>, which is \<open>nan\<close> for a missing Name as
  for a text that lowercases to \<open>nan\<close>. So at most one row with a missing Name is left in
  the frame that is written; of two rows whose Names are missing or lowercase to \<open>nan\<close>,
  the later one is dropped; and the first such row of the table stays.
\<close>

theorem removeDuplicates_missing_name_key:
  assumes "read_csv files input = Inr data" and "''Name'' \<in> set (columns data)"
  shows "\<exists>out. removeDuplicates_frame files input = Inr out
           \<and> removeDuplicates files input = Inr (to_csv out ''./chebiChemicalsCASSet.csv'' False files)
           \<and> lowered_name [''Name''] [CNaN] = Inr ''nan''
           \<and> length (filter (\<lambda>lr. getitem (columns data) (snd lr) ''Name'' = Inr CNaN) (rows out)) \<le> 1
           \<and> (\<forall>i j v w. i < j \<and> j < length (rows data)
                  \<and> getitem (columns data) (snd (rows data ! i)) ''Name'' = Inr v \<and> nan_like v
                  \<and> getitem (columns data) (snd (rows data ! j)) ''Name'' = Inr w \<and> nan_like w
                \<longrightarrow> j \<notin> fst ` set (rows out))
           \<and> (\<forall>i v. i < length (rows data)
                  \<and> getitem (columns data) (snd (rows data ! i)) ''Name'' = Inr v \<and> nan_like v
                  \<and> (\<forall>h u. h < i \<and> getitem (columns data) (snd (rows data ! h)) ''Name'' = Inr u
                        \<longrightarrow> \<not> nan_like u)
                \<longrightarrow> i \<in> fst ` set (rows out))"
proof -
  let ?cols = "columns data"
  let ?K = "\<lambda>lr. lowered_name ?cols (snd lr)"
  let ?out = "data\<lparr>rows := keep ?K {} (rows data)\<rparr>"
  have fr: "removeDuplicates_frame files input = Inr ?out"
    by (rule removeDuplicates_frame_keep[OF assms])
  have wr: "removeDuplicates files input = Inr (to_csv ?out ''./chebiChemicalsCASSet.csv'' False files)"
    by (simp add: removeDuplicates_def fr)
  have key: "?K lr = Inr ''nan''" if "getitem ?cols (snd lr) ''Name'' = Inr v" "nan_like v" for lr v
    using that by (simp add: lowered_name_def nan_like_key)
  have key': "nan_like v" if "getitem ?cols (snd lr) ''Name'' = Inr v" "?K lr = Inr ''nan''" for lr v
    using that by (simp add: lowered_name_def nan_like_key)
  have ex: "lowered_name [''Name''] [CNaN] = Inr ''nan''"
    by (simp add: lowered_name_def getitem_def py_str_def lower_def lower_char_def
        upper_letters_def lower_letters_def)
  have one: "length (filter (\<lambda>lr. getitem ?cols (snd lr) ''Name'' = Inr CNaN) (rows ?out)) \<le> 1"
  proof (rule at_most_one_with_key[where k = ?K and c = "Inr ''nan''"])
    show "distinct (map ?K (rows ?out))"
      by (simp add: keep_distinct)
    show "?K x = Inr ''nan''" if "getitem ?cols (snd x) ''Name'' = Inr CNaN" for x
      using that by (intro key[of x CNaN]) (simp_all add: nan_like_def)
  qed
  have later: "j \<notin> fst ` set (rows ?out)"
    if "i < j" "j < length (rows data)"
      "getitem ?cols (snd (rows data ! i)) ''Name'' = Inr v" "nan_like v"
      "getitem ?cols (snd (rows data ! j)) ''Name'' = Inr w" "nan_like w" for i j v w
  proof -
    have "?K (rows data ! i) = ?K (rows data ! j)"
      using key[OF that(3,4)] key[OF that(5,6)] by simp
    moreover have "rows data ! i \<in> set (take j (rows data))"
      using that(1,2) by (auto simp: in_set_conv_nth intro!: exI[of _ i])
    ultimately have "?K (rows data ! j) \<in> ?K ` set (take j (rows data))"
      by (metis (no_types, lifting) image_eqI)
    then show ?thesis
      using removeDuplicates_frame_labels[OF assms fr, of j] by simp
  qed
  have first: "i \<in> fst ` set (rows ?out)"
    if "i < length (rows data)" "getitem ?cols (snd (rows data ! i)) ''Name'' = Inr v" "nan_like v"
      "\<And>h u. h < i \<Longrightarrow> getitem ?cols (snd (rows data ! h)) ''Name'' = Inr u \<Longrightarrow> \<not> nan_like u" for i v
  proof -
    have "?K (rows data ! i) \<notin> ?K ` set (take i (rows data))"
    proof
      assume "?K (rows data ! i) \<in> ?K ` set (take i (rows data))"
      then obtain h where h: "h < i" "?K (rows data ! h) = ?K (rows data ! i)"
        using that(1) by (auto simp: in_set_conv_nth)
      have "h < length (rows data)" using h(1) that(1) by simp
      then obtain u where u: "getitem ?cols (snd (rows data ! h)) ''Name'' = Inr u"
        using read_csv_getitem[OF assms] by (auto simp: list_all_length)
      have "?K (rows data ! h) = Inr ''nan''"
        using h(2) key[OF that(2,3)] by simp
      then have "nan_like u" using key'[OF u] by simp
      with that(4)[OF h(1) u] show False by simp
    qed
    then show ?thesis
      using removeDuplicates_frame_labels[OF assms fr, of i] that(1) by simp
  qed
  show ?thesis
    using fr wr ex one later first by (intro exI[of _ ?out]) blast
qed

theorem removeDuplicates_missing_name_key_witness:
  "read_csv [''names.csv'' \<mapsto> \<lparr>header = [''Name''], body = [[CNaN], [CStr ''NAN'']]\<rparr>] ''names.csv''
     = Inr \<lparr>columns = [''Name''], rows = [(0, [CNaN]), (1, [CStr ''NAN''])]\<rparr>
   \<and> ''Name'' \<in> set [''Name'']
   \<and> (\<exists>out. removeDuplicates_frame
               [''names.csv'' \<mapsto> \<lparr>header = [''Name''], body = [[CNaN], [CStr ''NAN'']]\<rparr>] ''names.csv''
             = Inr out
           \<and> 0 \<in> fst ` set (rows out) \<and> 1 \<notin> fst ` set (rows out))"
proof -
  let ?files = "[''names.csv'' \<mapsto> \<lparr>header = [''Name''], body = [[CNaN], [CStr ''NAN'']]\<rparr>]"
  let ?data = "\<lparr>columns = [''Name''], rows = [(0, [CNaN]), (1, [CStr ''NAN''])]\<rparr>"
  have r: "read_csv ?files ''names.csv'' = Inr ?data"
    by (simp add: read_csv_def pad_def)
  have n: "''Name'' \<in> set (columns ?data)"
    by simp
  have g0: "getitem (columns ?data) (snd (rows ?data ! 0)) ''Name'' = Inr CNaN"
    and g1: "getitem (columns ?data) (snd (rows ?data ! 1)) ''Name'' = Inr (CStr ''NAN'')"
    by (simp_all add: getitem_def)
  have l0: "nan_like CNaN" and l1: "nan_like (CStr ''NAN'')"
    by (simp_all add: nan_like_def lower_def lower_char_def upper_letters_def lower_letters_def)
  from removeDuplicates_missing_name_key[OF r n]
  obtain out where out: "removeDuplicates_frame ?files ''names.csv'' = Inr out"
    and later: "\<And>i j v w. i < j \<and> j < length (rows ?data)
                  \<and> getitem (columns ?data) (snd (rows ?data ! i)) ''Name'' = Inr v \<and> nan_like v
                  \<and> getitem (columns ?data) (snd (rows ?data ! j)) ''Name'' = Inr w \<and> nan_like w
                \<Longrightarrow> j \<notin> fst ` set (rows out)"
    and first: "\<And>i v. i < length (rows ?data)
                  \<and> getitem (columns ?data) (snd (rows ?data ! i)) ''Name'' = Inr v \<and> nan_like v
                  \<and> (\<forall>h u. h < i \<and> getitem (columns ?data) (snd (rows ?data ! h)) ''Name'' = Inr u
                        \<longrightarrow> \<not> nan_like u)
                \<Longrightarrow> i \<in> fst ` set (rows out)"
    by blast
  have "1 \<notin> fst ` set (rows out)"
    using later[of 0 1 CNaN "CStr ''NAN''"] g0 g1 l0 l1 by simp
  moreover have "0 \<in> fst ` set (rows out)"
    using first[of 0 CNaN] g0 l0 by simp
  ultimately show ?thesis
    using r out by auto
qed

section \<open>Merger: the lookup indices\<close>

lemma index_loop_untouched:
  assumes "index_loop valcol cols rws d0 = Inr d"
    and "list_all (\<lambda>lr. \<forall>k'. getitem cols (snd lr) ''Compound ID'' = Inr k' \<longrightarrow> hash_key k' \<noteq> Some h) rws"
  shows "d h = d0 h"
  using assms
proof (induction rws arbitrary: d0)
  case Nil
  then show ?case by simp
next
  case (Cons lr rws)
  obtain l r where lr: "lr = (l, r)" by (cases lr)
  from Cons.prems(1) lr obtain v k where v: "getitem cols r valcol = Inr v"
    and k: "getitem cols r ''Compound ID'' = Inr k"
    and rest: "index_loop valcol cols rws (dict_set d0 k v) = Inr d"
    by (auto split: sum.splits)
  have "hash_key k \<noteq> Some h"
    using Cons.prems(2) lr k by simp
  then have "dict_set d0 k v h = d0 h"
    by (auto simp: dict_set_def split: option.splits)
  moreover have "d h = dict_set d0 k v h"
    using Cons.prems(2) by (intro Cons.IH[OF rest]) simp
  ultimately show ?case by simp
qed

lemma index_loop_last:
  assumes "index_loop valcol cols rws d0 = Inr d"
    and "i < length rws"
    and "getitem cols (snd (rws ! i)) ''Compound ID'' = Inr k"
    and "getitem cols (snd (rws ! i)) valcol = Inr v"
    and "hash_key k = Some h"
    and "\<forall>j k'. i < j \<and> j < length rws \<and> getitem cols (snd (rws ! j)) ''Compound ID'' = Inr k'
           \<longrightarrow> hash_key k' \<noteq> Some h"
  shows "d h = Some v"
  using assms
proof (induction rws arbitrary: d0 i)
  case Nil
  then show ?case by simp
next
  case (Cons lr rws)
  obtain l r where lr: "lr = (l, r)" by (cases lr)
  from Cons.prems(1) lr obtain v0 k0 where v0: "getitem cols r valcol = Inr v0"
    and k0: "getitem cols r ''Compound ID'' = Inr k0"
    and rest: "index_loop valcol cols rws (dict_set d0 k0 v0) = Inr d"
    by (auto split: sum.splits)
  show ?case
  proof (cases i)
    case 0
    have kv: "k0 = k" "v0 = v"
      using Cons.prems(3,4) 0 lr k0 v0 by simp_all
    have "list_all (\<lambda>lr. \<forall>k'. getitem cols (snd lr) ''Compound ID'' = Inr k' \<longrightarrow> hash_key k' \<noteq> Some h) rws"
      unfolding list_all_length
    proof (intro allI impI)
      fix j k'
      assume "j < length rws" "getitem cols (snd (rws ! j)) ''Compound ID'' = Inr k'"
      then show "hash_key k' \<noteq> Some h"
        using Cons.prems(6)[rule_format, of "Suc j" k'] 0 by simp
    qed
    from index_loop_untouched[OF rest this]
    show ?thesis
      using kv Cons.prems(5) by (simp add: dict_set_def)
  next
    case (Suc i')
    show ?thesis
    proof (rule Cons.IH[OF rest, of i'])
      show "i' < length rws" using Cons.prems(2) Suc by simp
      show "getitem cols (snd (rws ! i')) ''Compound ID'' = Inr k"
        using Cons.prems(3) Suc by simp
      show "getitem cols (snd (rws ! i')) valcol = Inr v"
        using Cons.prems(4) Suc by simp
      show "hash_key k = Some h" by (rule Cons.prems(5))
      show "\<forall>j k'. i' < j \<and> j < length rws \<and> getitem cols (snd (rws ! j)) ''Compound ID'' = Inr k'
           \<longrightarrow> hash_key k' \<noteq> Some h"
      proof (intro allI impI)
        fix j k'
        assume "i' < j \<and> j < length rws \<and> getitem cols (snd (rws ! j)) ''Compound ID'' = Inr k'"
        then show "hash_key k' \<noteq> Some h"
          using Cons.prems(6)[rule_format, of "Suc j" k'] Suc by simp
      qed
    qed
  qed
qed

lemma index_loop_succeeds:
  assumes "list_all (\<lambda>lr. \<exists>v. getitem cols (snd lr) valcol = Inr v) rws"
    and "list_all (\<lambda>lr. \<exists>k. getitem cols (snd lr) ''Compound ID'' = Inr k) rws"
  shows "\<exists>d. index_loop valcol cols rws d0 = Inr d"
  using assms
proof (induction rws arbitrary: d0)
  case Nil
  then show ?case by simp
next
  case (Cons lr rws)
  obtain l r where lr: "lr = (l, r)" by (cases lr)
  from Cons.prems lr obtain v k where "getitem cols r valcol = Inr v"
    "getitem cols r ''Compound ID'' = Inr k"
    by auto
  moreover have "\<exists>d. index_loop valcol cols rws (dict_set d0 k v) = Inr d"
    using Cons.prems by (intro Cons.IH) simp_all
  ultimately show ?case
    using lr by simp
qed

lemma index_loop_last_value:
  assumes "index_loop valcol cols rws Map.empty = Inr d"
    and "i < length rws"
    and "getitem cols (snd (rws ! i)) ''Compound ID'' = Inr k"
    and "getitem cols (snd (rws ! i)) valcol = Inr v"
    and "hash_key k \<noteq> None"
    and "\<forall>j k'. i < j \<and> j < length rws \<and> getitem cols (snd (rws ! j)) ''Compound ID'' = Inr k'
           \<longrightarrow> hash_key k' \<noteq> hash_key k"
  shows "dict_get d k = Some v"
proof -
  from assms(5) obtain h where h: "hash_key k = Some h" by auto
  have "d h = Some v"
    using assms(6) by (intro index_loop_last[OF assms(1-4) h]) (simp add: h)
  then show ?thesis
    by (simp add: dict_get_def h)
qed

section \<open>Merger: one output row per Names row\<close>

lemma merge_loop_cells:
  assumes "list_all (\<lambda>lr. \<exists>k. getitem cols (snd lr) ''Compound ID'' = Inr k) rws"
    and "list_all (\<lambda>lr. \<exists>n. getitem cols (snd lr) ''Name'' = Inr n) rws"
  shows "\<exists>fs cs ms. merge_loop cols rws formulas cas (fl, cl, ml) = Inr (fl @ fs, cl @ cs, ms)
           \<and> list_all2 (\<lambda>lr f. \<exists>k. getitem cols (snd lr) ''Compound ID'' = Inr k \<and> f = merge_cell formulas k) rws fs
           \<and> list_all2 (\<lambda>lr c. \<exists>k. getitem cols (snd lr) ''Compound ID'' = Inr k \<and> c = merge_cell cas k) rws cs"
  using assms
proof (induction rws arbitrary: fl cl ml)
  case Nil
  then show ?case by simp
next
  case (Cons lr rws)
  obtain l r where lr: "lr = (l, r)" by (cases lr)
  from Cons.prems lr obtain k n where k: "getitem cols r ''Compound ID'' = Inr k"
    and n: "getitem cols r ''Name'' = Inr n"
    by auto
  let ?f = "merge_cell formulas k" and ?c = "merge_cell cas k"
  let ?ml = "if truthy_opt (dict_get formulas k) then ml else ml @ [n]"
  have step: "merge_loop cols (lr # rws) formulas cas (fl, cl, ml) =
                merge_loop cols rws formulas cas (fl @ [?f], cl @ [?c], ?ml)"
    by (simp add: lr k n merge_cell_def Let_def)
  from Cons.IH[of "fl @ [?f]" "cl @ [?c]" ?ml] Cons.prems
  obtain fs cs ms where rest: "merge_loop cols rws formulas cas (fl @ [?f], cl @ [?c], ?ml)
        = Inr ((fl @ [?f]) @ fs, (cl @ [?c]) @ cs, ms)"
    and fs: "list_all2 (\<lambda>lr f. \<exists>k. getitem cols (snd lr) ''Compound ID'' = Inr k \<and> f = merge_cell formulas k) rws fs"
    and cs: "list_all2 (\<lambda>lr c. \<exists>k. getitem cols (snd lr) ''Compound ID'' = Inr k \<and> c = merge_cell cas k) rws cs"
    by auto
  show ?case
  proof (rule exI[of _ "?f # fs"], rule exI[of _ "?c # cs"], rule exI[of _ ms], intro conjI)
    show "merge_loop cols (lr # rws) formulas cas (fl, cl, ml) = Inr (fl @ ?f # fs, cl @ ?c # cs, ms)"
      using step rest by simp
    show "list_all2 (\<lambda>lr f. \<exists>k. getitem cols (snd lr) ''Compound ID'' = Inr k \<and> f = merge_cell formulas k)
            (lr # rws) (?f # fs)"
      using fs k lr by simp
    show "list_all2 (\<lambda>lr c. \<exists>k. getitem cols (snd lr) ''Compound ID'' = Inr k \<and> c = merge_cell cas k)
            (lr # rws) (?c # cs)"
      using cs k lr by simp
  qed
qed

lemma set_column_new:
  assumes "name \<notin> set (columns df)" and "length vals = length (rows df)"
  shows "set_column name vals df =
           Inr \<lparr>columns = columns df @ [name],
                rows = map (\<lambda>(lr, v). (fst lr, snd lr @ [v])) (zip (rows df) vals)\<rparr>"
  using assms by (simp add: set_column_def)

lemma mergeCSVCheBI_rows:
  assumes "read_csv files ''./chebiFormulas.csv'' = Inr formulaCSV"
    and "''Formula'' \<in> set (columns formulaCSV)" and "''Compound ID'' \<in> set (columns formulaCSV)"
    and "read_csv files ''./chebiCAS.csv'' = Inr casCSV"
    and "''Accession Number'' \<in> set (columns casCSV)" and "''Compound ID'' \<in> set (columns casCSV)"
    and "read_csv files ''./chebiNames.csv'' = Inr synonyms"
    and "''Compound ID'' \<in> set (columns synonyms)" and "''Name'' \<in> set (columns synonyms)"
    and "''Formula'' \<notin> set (columns synonyms)" and "''CAS'' \<notin> set (columns synonyms)"
  shows "\<exists>formulas cas out.
           index_loop ''Formula'' (columns formulaCSV) (rows formulaCSV) Map.empty = Inr formulas
         \<and> index_loop ''Accession Number'' (columns casCSV) (rows casCSV) Map.empty = Inr cas
         \<and> mergeCSVCheBI files =
             Inr (files(''./chebiChemicalsCAS.csv'' \<mapsto>
                    \<lparr>header = columns synonyms @ [''Formula'', ''CAS''], body = out\<rparr>))
         \<and> length out = length (rows synonyms)
         \<and> (\<forall>i. i < length (rows synonyms) \<longrightarrow>
               (\<exists>k. getitem (columns synonyms) (snd (rows synonyms ! i)) ''Compound ID'' = Inr k
                  \<and> out ! i = snd (rows synonyms ! i) @ [merge_cell formulas k, merge_cell cas k]))"
proof -
  obtain formulas where formulas:
    "index_loop ''Formula'' (columns formulaCSV) (rows formulaCSV) Map.empty = Inr formulas"
    using index_loop_succeeds[OF read_csv_getitem[OF assms(1,2)] read_csv_getitem[OF assms(1,3)]]
    by blast
  obtain cas where cas:
    "index_loop ''Accession Number'' (columns casCSV) (rows casCSV) Map.empty = Inr cas"
    using index_loop_succeeds[OF read_csv_getitem[OF assms(4,5)] read_csv_getitem[OF assms(4,6)]]
    by blast
  let ?cols = "columns synonyms" and ?rws = "rows synonyms"
  from merge_loop_cells[OF read_csv_getitem[OF assms(7,8)] read_csv_getitem[OF assms(7,9)],
      of formulas cas "[]" "[]" "[]"]
  obtain fs cs ms where loop: "merge_loop ?cols ?rws formulas cas ([], [], []) = Inr (fs, cs, ms)"
    and fs: "list_all2 (\<lambda>lr f. \<exists>k. getitem ?cols (snd lr) ''Compound ID'' = Inr k \<and> f = merge_cell formulas k) ?rws fs"
    and cs: "list_all2 (\<lambda>lr c. \<exists>k. getitem ?cols (snd lr) ''Compound ID'' = Inr k \<and> c = merge_cell cas k) ?rws cs"
    by auto
  have lf: "length fs = length ?rws" and lc: "length cs = length ?rws"
    using list_all2_lengthD[OF fs] list_all2_lengthD[OF cs] by simp_all
  let ?s1 = "\<lparr>columns = ?cols @ [''Formula''],
               rows = map (\<lambda>(lr, v). (fst lr, snd lr @ [v])) (zip ?rws fs)\<rparr>"
  have s1: "set_column ''Formula'' fs synonyms = Inr ?s1"
    using assms(10) lf by (rule set_column_new)
  let ?s2 = "\<lparr>columns = (?cols @ [''Formula'']) @ [''CAS''],
               rows = map (\<lambda>(lr, v). (fst lr, snd lr @ [v])) (zip (rows ?s1) cs)\<rparr>"
  have s2: "set_column ''CAS'' cs ?s1 = Inr ?s2"
    using set_column_new[of "''CAS''" ?s1 cs] assms(11) lf lc by simp
  let ?out = "map snd (rows ?s2)"
  have run: "mergeCSVCheBI files =
      Inr (files(''./chebiChemicalsCAS.csv'' \<mapsto> \<lparr>header = ?cols @ [''Formula'', ''CAS''], body = ?out\<rparr>))"
    by (simp add: mergeCSVCheBI_def assms(1,4,7) formulas cas loop s1 s2 to_csv_def)
  have len: "length ?out = length ?rws"
    using lf lc by simp
  have row: "\<exists>k. getitem ?cols (snd (?rws ! i)) ''Compound ID'' = Inr k
                \<and> ?out ! i = snd (?rws ! i) @ [merge_cell formulas k, merge_cell cas k]"
    if i: "i < length ?rws" for i
  proof -
    from fs i obtain k where k: "getitem ?cols (snd (?rws ! i)) ''Compound ID'' = Inr k"
      and f: "fs ! i = merge_cell formulas k"
      by (auto simp: list_all2_conv_all_nth)
    from cs i k have c: "cs ! i = merge_cell cas k"
      by (auto simp: list_all2_conv_all_nth)
    have "?out ! i = snd (?rws ! i) @ [fs ! i, cs ! i]"
      using i lf lc by simp
    with k f c show ?thesis by simp
  qed
  show ?thesis
    using formulas cas run len row by blast
qed

text \<open>
  C9. When the three tables can be read and have their columns (and the Names table has
  no Formula or CAS column of its own), the Merger succeeds and writes, under the Names
  header followed by Formula and CAS, one row for each Names row, in the Names order:
  the Names row followed by the Formula cell and the CAS cell for its Compound ID. A row
  whose Compound ID is in neither index is written with the sentinel in both cells, not
  left out.
\<close>

theorem mergeCSVCheBI_one_row_per_name:
  assumes "read_csv files ''./chebiFormulas.csv'' = Inr formulaCSV"
    and "''Formula'' \<in> set (columns formulaCSV)" and "''Compound ID'' \<in> set (columns formulaCSV)"
    and "read_csv files ''./chebiCAS.csv'' = Inr casCSV"
    and "''Accession Number'' \<in> set (columns casCSV)" and "''Compound ID'' \<in> set (columns casCSV)"
    and "read_csv files ''./chebiNames.csv'' = Inr synonyms"
    and "''Compound ID'' \<in> set (columns synonyms)" and "''Name'' \<in> set (columns synonyms)"
    and "''Formula'' \<notin> set (columns synonyms)" and "''CAS'' \<notin> set (columns synonyms)"
  shows "\<exists>formulas cas out.
           index_loop ''Formula'' (columns formulaCSV) (rows formulaCSV) Map.empty = Inr formulas
         \<and> index_loop ''Accession Number'' (columns casCSV) (rows casCSV) Map.empty = Inr cas
         \<and> mergeCSVCheBI files =
             Inr (files(''./chebiChemicalsCAS.csv'' \<mapsto>
                    \<lparr>header = columns synonyms @ [''Formula'', ''CAS''], body = out\<rparr>))
         \<and> length out = length (rows synonyms)
         \<and> (\<forall>i. i < length (rows synonyms) \<longrightarrow>
               (\<exists>k. getitem (columns synonyms) (snd (rows synonyms ! i)) ''Compound ID'' = Inr k
                  \<and> out ! i = snd (rows synonyms ! i) @ [merge_cell formulas k, merge_cell cas k]))
         \<and> (\<forall>k. dict_get formulas k = None \<longrightarrow> merge_cell formulas k = CStr ''MISSING'')
         \<and> (\<forall>k. dict_get cas k = None \<longrightarrow> merge_cell cas k = CStr ''MISSING'')"
proof -
  have sentinel: "dict_get d k = None \<longrightarrow> merge_cell d k = CStr ''MISSING''" for d k
    by (simp add: merge_cell_def truthy_opt_def)
  from mergeCSVCheBI_rows[OF assms] sentinel show ?thesis
    by blast
qed

theorem mergeCSVCheBI_one_row_per_name_witness:
  "read_csv [''./chebiFormulas.csv'' \<mapsto> \<lparr>header = [''Compound ID'', ''Formula''], body = []\<rparr>,
             ''./chebiCAS.csv'' \<mapsto> \<lparr>header = [''Compound ID'', ''Accession Number''],
                                       body = [[CInt 1, CStr ''50-00-0'']]\<rparr>,
             ''./chebiNames.csv'' \<mapsto> \<lparr>header = [''Compound ID'', ''Name''],
                                         body = [[CInt 1, CStr ''A'']]\<rparr>]
       ''./chebiNames.csv''
     = Inr \<lparr>columns = [''Compound ID'', ''Name''], rows = [(0, [CInt 1, CStr ''A''])]\<rparr>
   \<and> (\<exists>out. mergeCSVCheBI
             [''./chebiFormulas.csv'' \<mapsto> \<lparr>header = [''Compound ID'', ''Formula''], body = []\<rparr>,
              ''./chebiCAS.csv'' \<mapsto> \<lparr>header = [''Compound ID'', ''Accession Number''],
                                        body = [[CInt 1, CStr ''50-00-0'']]\<rparr>,
              ''./chebiNames.csv'' \<mapsto> \<lparr>header = [''Compound ID'', ''Name''],
                                          body = [[CInt 1, CStr ''A'']]\<rparr>]
           = Inr [''./chebiFormulas.csv'' \<mapsto> \<lparr>header = [''Compound ID'', ''Formula''], body = []\<rparr>,
                  ''./chebiCAS.csv'' \<mapsto> \<lparr>header = [''Compound ID'', ''Accession Number''],
                                            body = [[CInt 1, CStr ''50-00-0'']]\<rparr>,
                  ''./chebiNames.csv'' \<mapsto> \<lparr>header = [''Compound ID'', ''Name''],
                                              body = [[CInt 1, CStr ''A'']]\<rparr>,
                  ''./chebiChemicalsCAS.csv'' \<mapsto>
                     \<lparr>header = [''Compound ID'', ''Name'', ''Formula'', ''CAS''], body = out\<rparr>]
         \<and> length out = 1)"
proof -
  let ?files = "[''./chebiFormulas.csv'' \<mapsto> \<lparr>header = [''Compound ID'', ''Formula''], body = []\<rparr>,
             ''./chebiCAS.csv'' \<mapsto> \<lparr>header = [''Compound ID'', ''Accession Number''],
                                       body = [[CInt 1, CStr ''50-00-0'']]\<rparr>,
             ''./chebiNames.csv'' \<mapsto> \<lparr>header = [''Compound ID'', ''Name''],
                                         body = [[CInt 1, CStr ''A'']]\<rparr>]"
  let ?f = "\<lparr>columns = [''Compound ID'', ''Formula''], rows = []\<rparr>"
  let ?c = "\<lparr>columns = [''Compound ID'', ''Accession Number''], rows = [(0, [CInt 1, CStr ''50-00-0''])]\<rparr>"
  let ?n = "\<lparr>columns = [''Compound ID'', ''Name''], rows = [(0, [CInt 1, CStr ''A''])]\<rparr>"
  have f: "read_csv ?files ''./chebiFormulas.csv'' = Inr ?f"
    and c: "read_csv ?files ''./chebiCAS.csv'' = Inr ?c"
    and n: "read_csv ?files ''./chebiNames.csv'' = Inr ?n"
    by (simp_all add: read_csv_def pad_def)
  have cols: "''Formula'' \<in> set (columns ?f)" "''Compound ID'' \<in> set (columns ?f)"
      "''Accession Number'' \<in> set (columns ?c)" "''Compound ID'' \<in> set (columns ?c)"
      "''Compound ID'' \<in> set (columns ?n)" "''Name'' \<in> set (columns ?n)"
      "''Formula'' \<notin> set (columns ?n)" "''CAS'' \<notin> set (columns ?n)"
    by simp_all
  from mergeCSVCheBI_one_row_per_name[OF f cols(1,2) c cols(3,4) n cols(5-8)]
  obtain out where "mergeCSVCheBI ?files =
             Inr (?files(''./chebiChemicalsCAS.csv'' \<mapsto>
                    \<lparr>header = columns ?n @ [''Formula'', ''CAS''], body = out\<rparr>))"
    and "length out = length (rows ?n)"
    by blast
  then have "mergeCSVCheBI ?files =
             Inr (?files(''./chebiChemicalsCAS.csv'' \<mapsto>
                    \<lparr>header = [''Compound ID'', ''Name'', ''Formula'', ''CAS''], body = out\<rparr>))
         \<and> length out = 1"
    by simp
  with n show ?thesis by blast
qed

section \<open>Merger: the sentinel\<close>

text \<open>
  C1. The Formulas table has the Compound ID 1, with the Formula \<open>0\<close>: the index holds
  the key 1, and \<^verbatim>\<open>get\<close> finds its value. The value is false as a truth value, so
  \<^verbatim>\<open>if chosenFormula:\<close> takes the branch of the absent key and the row is written with
  the sentinel. An empty text under the key is treated in the same way.
\<close>

theorem mergeCSVCheBI_sentinel_for_present_key:
  "index_loop ''Formula'' [''Compound ID'', ''Formula''] [(0, [CInt 1, CInt 0])] Map.empty
     = Inr [CInt 1 \<mapsto> CInt 0]
   \<and> dict_get [CInt 1 \<mapsto> CInt 0] (CInt 1) = Some (CInt 0)
   \<and> mergeCSVCheBI
       [''./chebiFormulas.csv'' \<mapsto> \<lparr>header = [''Compound ID'', ''Formula''], body = [[CInt 1, CInt 0]]\<rparr>,
        ''./chebiCAS.csv'' \<mapsto> \<lparr>header = [''Compound ID'', ''Accession Number''],
                                  body = [[CInt 1, CStr ''50-00-0'']]\<rparr>,
        ''./chebiNames.csv'' \<mapsto> \<lparr>header = [''Compound ID'', ''Name''], body = [[CInt 1, CStr ''A'']]\<rparr>]
     = Inr [''./chebiFormulas.csv'' \<mapsto> \<lparr>header = [''Compound ID'', ''Formula''], body = [[CInt 1, CInt 0]]\<rparr>,
            ''./chebiCAS.csv'' \<mapsto> \<lparr>header = [''Compound ID'', ''Accession Number''],
                                      body = [[CInt 1, CStr ''50-00-0'']]\<rparr>,
            ''./chebiNames.csv'' \<mapsto> \<lparr>header = [''Compound ID'', ''Name''], body = [[CInt 1, CStr ''A'']]\<rparr>,
            ''./chebiChemicalsCAS.csv'' \<mapsto>
               \<lparr>header = [''Compound ID'', ''Name'', ''Formula'', ''CAS''],
                  body = [[CInt 1, CStr ''A'', CStr ''MISSING'', CStr ''50-00-0'']]\<rparr>]
   \<and> merge_cell [CInt 1 \<mapsto> CStr ''''] (CInt 1) = CStr ''MISSING''"
  by (simp add: mergeCSVCheBI_def read_csv_def pad_def getitem_def dict_set_def dict_get_def
      hash_key_def truthy_opt_def truthy_def chosen_or_missing_def set_column_def to_csv_def
      merge_cell_def)

section \<open>Filter: the written file\<close>

text \<open>
  C4. The table has the rows \<open>(1, CHEMBL123)\<close> and \<open>(2, ethanol)\<close>. \<open>filter\<close> drops the
  first row and writes the second one back to the path it read. The file it writes has
  a first column with the empty name that holds the index label of each row: here the
  label \<open>1\<close> of the surviving row.
\<close>

theorem filter_synonyms_writes_index_column:
  "filter_synonyms
     [''./cid-synonyms01.csv'' \<mapsto>
        \<lparr>header = [''ID'', ''Synonym''],
           body = [[CInt 1, CStr ''CHEMBL123''], [CInt 2, CStr ''ethanol'']]\<rparr>]
   = Inr [''./cid-synonyms01.csv'' \<mapsto>
            \<lparr>header = ['''', ''ID'', ''Synonym''], body = [[CInt 1, CInt 2, CStr ''ethanol'']]\<rparr>]"
  by (simp add: filter_synonyms_def read_csv_def pad_def getitem_def py_in_def drop_index_def
      to_csv_def)

section \<open>Case normalizer: texts and missing names\<close>

lemma collect_map_Inr: "collect (map Inr ys) = Inr ys"
  by (induction ys) simp_all

lemma column_cells_present:
  assumes "list_all (\<lambda>lr. \<exists>v. getitem (columns df) (snd lr) name = Inr v) (rows df)"
  shows "\<exists>cells. column_cells name df = Inr cells \<and> length cells = length (rows df)
           \<and> (\<forall>i. i < length (rows df) \<longrightarrow> getitem (columns df) (snd (rows df ! i)) name = Inr (cells ! i))"
proof -
  let ?g = "\<lambda>lr. getitem (columns df) (snd lr) name"
  let ?cells = "map (\<lambda>lr. case ?g lr of Inr v \<Rightarrow> v | Inl e \<Rightarrow> CNaN) (rows df)"
  have "map ?g (rows df) = map Inr ?cells"
    using assms by (auto simp: list_all_iff)
  then have "collect (map ?g (rows df)) = collect (map Inr ?cells)"
    by (rule arg_cong)
  then have "column_cells name df = Inr ?cells"
    by (simp only: column_cells_def collect_map_Inr)
  moreover have "?g (rows df ! i) = Inr (?cells ! i)" if "i < length (rows df)" for i
    using assms that by (auto simp: list_all_length)
  ultimately show ?thesis by auto
qed

lemma getitem_replaced:
  assumes "length r = length cols"
  shows "getitem cols (map (\<lambda>cv. if fst cv = name then v else snd cv) (zip cols r)) c =
           (if c = name \<and> name \<in> set cols then Inr v else getitem cols r c)"
  using assms
proof (induction r cols rule: list_induct2)
  case Nil
  then show ?case by (simp add: getitem_def)
next
  case (Cons x xs y ys)
  then show ?case
    by (auto simp: getitem_def split: option.splits)
qed

lemma upper_glucose: "upper_cell (CStr ''glucose'') = CStr ''GLUCOSE''"
  by (simp add: upper_cell_def upper_def upper_char_def upper_letters_def lower_letters_def)

lemma upper_char_other: "c \<notin> set lower_letters \<Longrightarrow> upper_char c = c"
proof -
  assume "c \<notin> set lower_letters"
  then have "map_of (zip lower_letters upper_letters) c = None"
    by (simp add: map_of_eq_None_iff lower_letters_def upper_letters_def)
  then show ?thesis by (simp add: upper_char_def)
qed

text \<open>
  C7, as the code has it. For a table that can be read and has a Name column:
  when the table has no rows or at least one Name is a text, \<open>lowercaseNames\<close> writes
  every row with its Name replaced (a text by its uppercase form, a missing Name left
  missing) and its other columns unchanged; when the table has rows and no Name is a
  text (all missing, or all numbers), it raises an attribute error and writes nothing.
  Uppercasing maps \<open>glucose\<close> to \<open>GLUCOSE\<close> and leaves a character that is not a lowercase
  letter unchanged.
\<close>

theorem lowercaseNames_uppercases_texts:
  assumes "read_csv files input = Inr data" and "''Name'' \<in> set (columns data)"
  shows "\<exists>cells. column_cells ''Name'' data = Inr cells
           \<and> (cells = [] \<or> list_ex is_str cells \<longrightarrow>
                (\<exists>out. lowercaseNames files input =
                         Inr (files(''./chebiChemicalsCASSetUPPER.csv'' \<mapsto>
                                \<lparr>header = columns data, body = out\<rparr>))
                   \<and> length out = length (rows data)
                   \<and> (\<forall>i. i < length (rows data) \<longrightarrow>
                         getitem (columns data) (out ! i) ''Name'' = Inr (upper_cell (cells ! i))
                         \<and> (\<forall>c. c \<noteq> ''Name'' \<longrightarrow>
                               getitem (columns data) (out ! i) c
                                 = getitem (columns data) (snd (rows data ! i)) c))))
           \<and> (cells \<noteq> [] \<and> \<not> list_ex is_str cells \<longrightarrow> lowercaseNames files input = Inl AttributeError)
           \<and> (\<forall>s. upper_cell (CStr s) = CStr (upper s)) \<and> upper_cell CNaN = CNaN
           \<and> upper_cell (CStr ''glucose'') = CStr ''GLUCOSE''
           \<and> (\<forall>c. c \<notin> set lower_letters \<longrightarrow> upper_char c = c)"
proof -
  let ?cols = "columns data"
  from column_cells_present[OF read_csv_getitem[OF assms]]
  obtain cells where cells: "column_cells ''Name'' data = Inr cells"
    and len: "length cells = length (rows data)"
    and nth: "\<And>i. i < length (rows data) \<Longrightarrow> getitem ?cols (snd (rows data ! i)) ''Name'' = Inr (cells ! i)"
    by blast
  have rowlen: "length (snd (rows data ! i)) = length ?cols" if "i < length (rows data)" for i
    using read_csv_frame(2)[OF assms(1)] that by (simp add: list_all_length)
  let ?out = "map (\<lambda>(lr, v). map (\<lambda>cv. if fst cv = ''Name'' then v else snd cv) (zip ?cols (snd lr)))
                (zip (rows data) (map upper_cell cells))"
  have ok: "lowercaseNames files input =
              Inr (files(''./chebiChemicalsCASSetUPPER.csv'' \<mapsto> \<lparr>header = ?cols, body = ?out\<rparr>))"
    if "cells = [] \<or> list_ex is_str cells"
    using that assms len
    by (simp add: lowercaseNames_def cells str_upper_def set_column_def to_csv_def o_def
        case_prod_unfold)
  have row: "getitem ?cols (?out ! i) ''Name'' = Inr (upper_cell (cells ! i))
             \<and> (\<forall>c. c \<noteq> ''Name'' \<longrightarrow> getitem ?cols (?out ! i) c = getitem ?cols (snd (rows data ! i)) c)"
    if i: "i < length (rows data)" for i
  proof -
    have "?out ! i = map (\<lambda>cv. if fst cv = ''Name'' then upper_cell (cells ! i) else snd cv)
                       (zip ?cols (snd (rows data ! i)))"
      using i len by simp
    then show ?thesis
      using getitem_replaced[OF rowlen[OF i], of "''Name''" "upper_cell (cells ! i)"] assms(2)
      by simp
  qed
  have bad: "lowercaseNames files input = Inl AttributeError"
    if "cells \<noteq> [] \<and> \<not> list_ex is_str cells"
    using that assms by (simp add: lowercaseNames_def cells str_upper_def)
  have "length ?out = length (rows data)"
    using len by simp
  with cells ok row bad upper_glucose upper_char_other show ?thesis
    by (intro exI[of _ cells]) (auto simp: upper_cell_def)
qed

theorem lowercaseNames_all_missing_counterexample:
  "lowercaseNames [''names.csv'' \<mapsto> \<lparr>header = [''Name''], body = [[CNaN], [CNaN]]\<rparr>] ''names.csv''
     = Inl AttributeError"
  by (simp add: lowercaseNames_def read_csv_def pad_def column_cells_def getitem_def
      str_upper_def is_str_def)

theorem lowercaseNames_uppercases_texts_witness:
  "read_csv [''names.csv'' \<mapsto> \<lparr>header = [''Name''], body = [[CStr ''glucose''], [CNaN]]\<rparr>] ''names.csv''
     = Inr \<lparr>columns = [''Name''], rows = [(0, [CStr ''glucose'']), (1, [CNaN])]\<rparr>
   \<and> ''Name'' \<in> set [''Name'']
   \<and> (\<exists>out. lowercaseNames
               [''names.csv'' \<mapsto> \<lparr>header = [''Name''], body = [[CStr ''glucose''], [CNaN]]\<rparr>] ''names.csv''
             = Inr [''names.csv'' \<mapsto> \<lparr>header = [''Name''], body = [[CStr ''glucose''], [CNaN]]\<rparr>,
                    ''./chebiChemicalsCASSetUPPER.csv'' \<mapsto> \<lparr>header = [''Name''], body = out\<rparr>]
           \<and> length out = 2
           \<and> getitem [''Name''] (out ! 0) ''Name'' = Inr (CStr ''GLUCOSE'')
           \<and> getitem [''Name''] (out ! 1) ''Name'' = Inr CNaN)
   \<and> lowercaseNames [''ids.csv'' \<mapsto> \<lparr>header = [''Name''], body = [[CInt 1], [CInt 2]]\<rparr>] ''ids.csv''
       = Inl AttributeError"
proof -
  let ?ids = "[''ids.csv'' \<mapsto> \<lparr>header = [''Name''], body = [[CInt 1], [CInt 2]]\<rparr>]"
  let ?idata = "\<lparr>columns = [''Name''], rows = [(0, [CInt 1]), (1, [CInt 2])]\<rparr>"
  have ir: "read_csv ?ids ''ids.csv'' = Inr ?idata"
    by (simp add: read_csv_def pad_def)
  have inn: "''Name'' \<in> set (columns ?idata)"
    by simp
  have ic: "column_cells ''Name'' ?idata = Inr [CInt 1, CInt 2]"
    by (simp add: column_cells_def getitem_def)
  have isn: "[CInt 1, CInt 2] \<noteq> [] \<and> \<not> list_ex is_str [CInt 1, CInt 2]"
    by (simp add: is_str_def)
  from lowercaseNames_uppercases_texts[OF ir inn] ic isn
  have raises: "lowercaseNames ?ids ''ids.csv'' = Inl AttributeError"
    by auto
  let ?files = "[''names.csv'' \<mapsto> \<lparr>header = [''Name''], body = [[CStr ''glucose''], [CNaN]]\<rparr>]"
  let ?data = "\<lparr>columns = [''Name''], rows = [(0, [CStr ''glucose'']), (1, [CNaN])]\<rparr>"
  have r: "read_csv ?files ''names.csv'' = Inr ?data"
    by (simp add: read_csv_def pad_def)
  have n: "''Name'' \<in> set (columns ?data)"
    by simp
  have c: "column_cells ''Name'' ?data = Inr [CStr ''glucose'', CNaN]"
    by (simp add: column_cells_def getitem_def)
  have s: "list_ex is_str [CStr ''glucose'', CNaN]"
    by (simp add: is_str_def)
  from lowercaseNames_uppercases_texts[OF r n] c s
  obtain out where out: "lowercaseNames ?files ''names.csv'' =
                         Inr (?files(''./chebiChemicalsCASSetUPPER.csv'' \<mapsto>
                                \<lparr>header = columns ?data, body = out\<rparr>))"
    and len: "length out = length (rows ?data)"
    and row: "\<And>i. i < length (rows ?data) \<Longrightarrow>
                 getitem (columns ?data) (out ! i) ''Name'' = Inr (upper_cell ([CStr ''glucose'', CNaN] ! i))"
    by auto
  have "getitem [''Name''] (out ! 0) ''Name'' = Inr (CStr ''GLUCOSE'')"
    using row[of 0] upper_glucose by simp
  moreover have "getitem [''Name''] (out ! 1) ''Name'' = Inr CNaN"
    using row[of 1] by (simp add: upper_cell_def)
  ultimately show ?thesis
    using r out len raises by auto
qed

section \<open>Decompressors: coercion and order\<close>

lemma read_csv_rectangular: "read_csv files path = Inr df \<Longrightarrow> rectangular df"
  unfolding rectangular_def by (rule read_csv_frame(2))

lemma length_filter_zip:
  "length r = length cols \<Longrightarrow>
     length (filter (\<lambda>cv. P (fst cv)) (zip cols r)) = length (filter P cols)"
  by (induction r cols rule: list_induct2) auto

lemma drop_columns_frame:
  assumes "drop_columns names df = Inr df'" and "rectangular df"
  shows "columns df' = filter (\<lambda>c. c \<notin> set names) (columns df)" and "rectangular df'"
proof -
  from assms(1) have df': "df' = \<lparr>columns = filter (\<lambda>c. c \<notin> set names) (columns df),
               rows = map (\<lambda>lr. (fst lr,
                        map snd (filter (\<lambda>cv. fst cv \<notin> set names) (zip (columns df) (snd lr)))))
                      (rows df)\<rparr>"
    by (auto simp: drop_columns_def split: list.splits)
  show "columns df' = filter (\<lambda>c. c \<notin> set names) (columns df)"
    by (simp add: df')
  show "rectangular df'"
    using assms(2) length_filter_zip[where P = "\<lambda>c. c \<notin> set names"]
    by (auto simp: df' rectangular_def list_all_iff)
qed

lemma set_columns_frame:
  assumes "set_columns names df = Inr df'" and "rectangular df"
  shows "columns df' = names" and "rectangular df'"
  using assms by (auto simp: set_columns_def rectangular_def split: if_splits)

lemma keep_type_frame:
  assumes "keep_type lit df = Inr df'" and "rectangular df"
  shows "columns df' = columns df" and "rectangular df'"
  using assms by (fastforce simp: keep_type_def rectangular_def list_all_iff split: if_splits)+

lemma collect_Inr: "collect xs = Inr ys \<Longrightarrow> xs = map Inr ys"
proof (induction xs arbitrary: ys)
  case Nil
  then show ?case by simp
next
  case (Cons x xs)
  then show ?case
    by (cases x) (auto split: sum.splits)
qed

lemma astype_int_Inr: "astype_int c = Inr v \<Longrightarrow> \<exists>n. v = CInt n"
  by (auto simp: astype_int_def split: cell.splits option.splits if_splits)

lemma astype_row:
  assumes "collect (map (\<lambda>cv. if fst cv = name then astype_int (snd cv) else Inr (snd cv)) (zip cols r))
             = Inr r'"
    and "length r = length cols" and "name \<in> set cols"
  shows "length r' = length cols" and "\<exists>n. getitem cols r' name = Inr (CInt n)"
proof -
  let ?g = "\<lambda>cv. if fst cv = name then astype_int (snd cv) else Inr (snd cv)"
  from collect_Inr[OF assms(1)] have eq: "map ?g (zip cols r) = map Inr r'" .
  then have "length (map ?g (zip cols r)) = length (map Inr r')" by simp
  then show len: "length r' = length cols"
    using assms(2) by simp
  have "name \<in> dom (map_of (zip cols r'))"
    using assms(3) len by simp
  then obtain v where v: "map_of (zip cols r') name = Some v"
    by auto
  then have "(name, v) \<in> set (zip cols r')"
    by (rule map_of_SomeD)
  then obtain i where i: "i < length cols" "cols ! i = name" "r' ! i = v"
    using len by (auto simp: in_set_zip)
  have "map ?g (zip cols r) ! i = map Inr r' ! i"
    using eq by simp
  then have "astype_int (r ! i) = Inr v"
    using i len assms(2) by simp
  then obtain n where "v = CInt n"
    using astype_int_Inr by blast
  with v show "\<exists>n. getitem cols r' name = Inr (CInt n)"
    by (simp add: getitem_def)
qed

lemma astype_int_column_frame:
  assumes "astype_int_column name df = Inr df'" and "rectangular df"
  shows "columns df' = columns df" and "rectangular df'"
    and "list_all (\<lambda>lr. \<exists>n. getitem (columns df) (snd lr) name = Inr (CInt n)) (rows df')"
proof -
  let ?g = "\<lambda>cv. if fst cv = name then astype_int (snd cv) else Inr (snd cv)"
  let ?f = "\<lambda>lr. collect (map ?g (zip (columns df) (snd lr)))"
  from assms(1) obtain rs where name: "name \<in> set (columns df)"
    and rs: "collect (map ?f (rows df)) = Inr rs"
    and df': "df' = df\<lparr>rows := zip (map fst (rows df)) rs\<rparr>"
    by (auto simp: astype_int_column_def split: if_splits sum.splits)
  show "columns df' = columns df" by (simp add: df')
  from collect_Inr[OF rs] have eq: "map ?f (rows df) = map Inr rs" .
  have row: "length r' = length (columns df) \<and> (\<exists>n. getitem (columns df) r' name = Inr (CInt n))"
    if "r' \<in> set rs" for r'
  proof -
    from that obtain i where i: "i < length rs" "rs ! i = r'"
      by (auto simp: in_set_conv_nth)
    have len: "length rs = length (rows df)"
      using arg_cong[OF eq, of length] by simp
    have "map ?f (rows df) ! i = map Inr rs ! i"
      using eq by simp
    then have c: "?f (rows df ! i) = Inr r'"
      using i len by simp
    have "length (snd (rows df ! i)) = length (columns df)"
      using assms(2) i len by (simp add: rectangular_def list_all_length)
    from astype_row[OF c this name] show ?thesis by simp
  qed
  show "rectangular df'"
    using row by (auto simp: df' rectangular_def list_all_iff dest!: set_zip_rightD)
  show "list_all (\<lambda>lr. \<exists>n. getitem (columns df) (snd lr) name = Inr (CInt n)) (rows df')"
    using row by (auto simp: df' list_all_iff dest!: set_zip_rightD)
qed

lemma sort_values_ints:
  assumes "sort_values name df = Inr df'"
    and "list_all (\<lambda>lr. \<exists>n. getitem (columns df) (snd lr) name = Inr (CInt n)) (rows df)"
  shows "columns df' = columns df"
    and "\<exists>ids. map (\<lambda>lr. getitem (columns df) (snd lr) name) (rows df') = map (\<lambda>n. Inr (CInt n)) ids
            \<and> sorted ids"
proof -
  let ?c = "sort_cell (columns df) name"
  let ?K = "\<lambda>lr. num_val (?c lr)"
  have both: "getitem (columns df) (snd lr) name = Inr (CInt (?K lr)) \<and> ?c lr = CInt (?K lr)"
    if "lr \<in> set (rows df)" for lr
  proof -
    from assms(2) that obtain n where "getitem (columns df) (snd lr) name = Inr (CInt n)"
      by (auto simp: list_all_iff)
    then show ?thesis
      by (simp add: sort_cell_def num_val_def)
  qed
  then have cell: "getitem (columns df) (snd lr) name = Inr (CInt (?K lr))"
    if "lr \<in> set (rows df)" for lr
    using that by blast
  have num: "is_num (?c lr) \<and> ?c lr \<noteq> CNaN" if lr: "lr \<in> set (rows df)" for lr
  proof -
    obtain n where "?c lr = CInt n" using both[OF lr] by blast
    then show ?thesis by (simp add: is_num_def)
  qed
  have present: "filter (\<lambda>lr. ?c lr \<noteq> CNaN) (rows df) = rows df"
    using num by (simp add: filter_id_conv)
  have missing: "filter (\<lambda>lr. ?c lr = CNaN) (rows df) = []"
    using num by (simp add: filter_empty_conv)
  have nums: "list_all (\<lambda>lr. is_num (?c lr)) (rows df)"
    using num by (simp add: list_all_iff)
  from assms(1) have df': "df' = df\<lparr>rows := sort_key ?K (rows df)\<rparr>"
    by (simp add: sort_values_def Let_def present missing nums split: if_splits)
  show "columns df' = columns df" by (simp add: df')
  have "map (\<lambda>lr. getitem (columns df) (snd lr) name) (rows df')
          = map (\<lambda>n. Inr (CInt n)) (map ?K (sort_key ?K (rows df)))"
    using cell by (simp add: df')
  moreover have "sorted (map ?K (sort_key ?K (rows df)))"
    by (rule sorted_sort_key)
  ultimately show "\<exists>ids. map (\<lambda>lr. getitem (columns df) (snd lr) name) (rows df')
      = map (\<lambda>n. Inr (CInt n)) ids \<and> sorted ids"
    by blast
qed

lemma to_csv_sorted:
  assumes "sort_values name df = Inr df'"
    and "list_all (\<lambda>lr. \<exists>n. getitem (columns df) (snd lr) name = Inr (CInt n)) (rows df)"
  shows "\<exists>b ids. to_csv df' path False files path = Some \<lparr>header = columns df, body = b\<rparr>
           \<and> map (\<lambda>r. getitem (columns df) r name) b = map (\<lambda>n. Inr (CInt n)) ids \<and> sorted ids"
proof -
  from sort_values_ints[OF assms] obtain ids where c: "columns df' = columns df"
    and ids: "map (\<lambda>lr. getitem (columns df) (snd lr) name) (rows df') = map (\<lambda>n. Inr (CInt n)) ids"
      "sorted ids"
    by blast
  have "map (\<lambda>r. getitem (columns df) r name) (map snd (rows df')) = map (\<lambda>n. Inr (CInt n)) ids"
    using ids(1) by (simp add: o_def)
  then show ?thesis
    using ids(2) c by (auto simp: to_csv_def)
qed

lemma decompressCheBINames_sorted:
  assumes "decompressCheBINames files = Inr files'"
  shows "\<exists>b ids. files' ''./chebiNames.csv'' = Some \<lparr>header = [''Compound ID'', ''Name''], body = b\<rparr>
           \<and> map (\<lambda>r. getitem [''Compound ID'', ''Name''] r ''Compound ID'') b = map (\<lambda>n. Inr (CInt n)) ids
           \<and> sorted ids"
proof -
  from assms obtain n0 n1 n3 n4 n5 where
    n0: "read_csv files ''./names_3star.tsv'' = Inr n0"
    and n1: "drop_columns [''ID'', ''TYPE'', ''SOURCE'', ''ADAPTED'', ''LANGUAGE''] n0 = Inr n1"
    and n3: "set_columns [''Compound ID'', ''Name''] n1 = Inr n3"
    and n4: "astype_int_column ''Compound ID'' n3 = Inr n4"
    and n5: "sort_values ''Compound ID'' n4 = Inr n5"
    and out: "files' = to_csv n5 ''./chebiNames.csv'' False files"
    by (auto simp: decompressCheBINames_def split: sum.splits)
  have r3: "rectangular n3" and c3: "columns n3 = [''Compound ID'', ''Name'']"
    using read_csv_rectangular[OF n0] drop_columns_frame(2)[OF n1] set_columns_frame[OF n3]
    by simp_all
  have c4: "columns n4 = [''Compound ID'', ''Name'']"
    and ints: "list_all (\<lambda>lr. \<exists>n. getitem (columns n4) (snd lr) ''Compound ID'' = Inr (CInt n)) (rows n4)"
    using astype_int_column_frame(1,3)[OF n4 r3] c3 by simp_all
  from to_csv_sorted[OF n5 ints, of "''./chebiNames.csv''" files] out c4 show ?thesis
    by simp
qed

lemma decompressCheBIFormulas_sorted:
  assumes "decompressCheBIFormulas files = Inr files'"
  shows "\<exists>b ids. files' ''./chebiFormulas.csv'' = Some \<lparr>header = [''Compound ID'', ''Formula''], body = b\<rparr>
           \<and> map (\<lambda>r. getitem [''Compound ID'', ''Formula''] r ''Compound ID'') b = map (\<lambda>n. Inr (CInt n)) ids
           \<and> sorted ids"
proof -
  from assms obtain f0 f1 f3 f4 f5 f6 f7 where
    f0: "read_csv files chemical_data_url = Inr f0"
    and f1: "drop_columns [''ID'', ''SOURCE''] f0 = Inr f1"
    and f3: "set_columns [''Compound ID'', ''Type'', ''Formula''] f1 = Inr f3"
    and f4: "keep_type ''FORMULA'' f3 = Inr f4"
    and f5: "drop_columns [''Type''] f4 = Inr f5"
    and f6: "astype_int_column ''Compound ID'' f5 = Inr f6"
    and f7: "sort_values ''Compound ID'' f6 = Inr f7"
    and out: "files' = to_csv f7 ''./chebiFormulas.csv'' False files"
    by (auto simp: decompressCheBIFormulas_def split: sum.splits)
  have r3: "rectangular f3" and c3: "columns f3 = [''Compound ID'', ''Type'', ''Formula'']"
    using read_csv_rectangular[OF f0] drop_columns_frame(2)[OF f1] set_columns_frame[OF f3]
    by simp_all
  have r4: "rectangular f4" and c4: "columns f4 = [''Compound ID'', ''Type'', ''Formula'']"
    using keep_type_frame[OF f4 r3] c3 by simp_all
  have r5: "rectangular f5" and c5: "columns f5 = [''Compound ID'', ''Formula'']"
    using drop_columns_frame[OF f5 r4] c4 by simp_all
  have c6: "columns f6 = [''Compound ID'', ''Formula'']"
    and ints: "list_all (\<lambda>lr. \<exists>n. getitem (columns f6) (snd lr) ''Compound ID'' = Inr (CInt n)) (rows f6)"
    using astype_int_column_frame(1,3)[OF f6 r5] c5 by simp_all
  from to_csv_sorted[OF f7 ints, of "''./chebiFormulas.csv''" files] out c6 show ?thesis
    by simp
qed

lemma astype_int_wraps: "astype_int (CInt (2 ^ 63)) = Inr (CInt (- (2 ^ 63)))"
  by (simp add: astype_int_def wrap64_def)

lemma decompressCheBICAS_raises:
  "decompressCheBICAS files \<noteq> Inr files'"
  by (auto simp: decompressCheBICAS_def index_by_mask_list_def split: sum.splits)

lemma drop_two_of_four:
  assumes "length r = 4"
  shows "map snd (filter (\<lambda>cv. fst cv \<notin> set [''Exact Mass''])
           (zip [''ID'', ''Formula'', ''Exact Mass'']
              (map snd (filter (\<lambda>cv. fst cv \<notin> set [''Monoisotopic Mass''])
                 (zip [''ID'', ''Formula'', ''Monoisotopic Mass'', ''Exact Mass''] r))))) = take 2 r"
proof -
  from assms obtain a b c d where "r = [a, b, c, d]"
    by (auto simp: length_Suc_conv eval_nat_numeral)
  then show ?thesis by simp
qed

lemma read_csv_names_headerless:
  assumes "files path = Some f" and "header f = []" and "length names = n"
    and "\<not> list_ex (\<lambda>r. n < length r) (body f)"
  shows "read_csv_names files path names =
           Inr \<lparr>columns = names, rows = zip [0..<length (body f)] (map (pad n) (body f))\<rparr>"
  using assms by (simp add: read_csv_names_def Let_def)

lemma length_pad: "length r \<le> n \<Longrightarrow> length (pad n r) = n"
  by (simp add: pad_def)

lemma decompressMass_source_order:
  assumes "files ''./cid-mass'' = Some f" and "header f = []"
    and "\<not> list_ex (\<lambda>r. 4 < length r) (body f)"
  shows "decompressMass files =
           Inr (files(''./cid-mass.csv'' \<mapsto>
                  \<lparr>header = [''ID'', ''Formula''], body = map (\<lambda>r. take 2 (pad 4 r)) (body f)\<rparr>))"
proof -
  let ?names = "[''ID'', ''Formula'', ''Monoisotopic Mass'', ''Exact Mass'']"
  have rd: "read_csv_names files ''./cid-mass'' ?names =
      Inr \<lparr>columns = ?names, rows = zip [0..<length (body f)] (map (pad 4) (body f))\<rparr>"
    by (rule read_csv_names_headerless[where f = f and n = 4]) (use assms in simp_all)
  have len: "length (pad 4 r) = 4" if "r \<in> set (body f)" for r
    using assms(3) that by (intro length_pad) (auto simp: list_ex_iff not_less)
  have "map snd (map (\<lambda>lr. (fst lr, map snd (filter (\<lambda>cv. fst cv \<notin> set [''Exact Mass''])
           (zip [''ID'', ''Formula'', ''Exact Mass'']
              (map snd (filter (\<lambda>cv. fst cv \<notin> set [''Monoisotopic Mass''])
                 (zip ?names (snd lr))))))))
          (zip [0..<length (body f)] (map (pad 4) (body f))))
        = map (\<lambda>r. take 2 (pad 4 r)) (body f)"
    (is "?l = ?r")
  proof (rule nth_equalityI)
    show "length ?l = length ?r" by simp
    fix i assume "i < length ?l"
    then have i: "i < length (body f)" by simp
    then have "length (pad 4 (body f ! i)) = 4"
      by (intro len) simp
    from drop_two_of_four[OF this] i show "?l ! i = ?r ! i"
      by simp
  qed
  then show ?thesis
    by (simp add: decompressMass_def rd drop_columns_def to_csv_def o_def)
qed

lemma decompressSynonyms_source_order:
  assumes "files ''./cid-synonyms'' = Some f" and "header f = []"
    and "\<not> list_ex (\<lambda>r. 2 < length r) (body f)"
  shows "decompressSynonyms files =
           Inr (files(''./cid-synonyms.csv'' \<mapsto>
                  \<lparr>header = [''ID'', ''Synonym''], body = map (pad 2) (body f)\<rparr>))"
proof -
  have rd: "read_csv_names files ''./cid-synonyms'' [''ID'', ''Synonym''] =
      Inr \<lparr>columns = [''ID'', ''Synonym''], rows = zip [0..<length (body f)] (map (pad 2) (body f))\<rparr>"
    by (rule read_csv_names_headerless[where f = f and n = 2]) (use assms in simp_all)
  show ?thesis
    by (simp add: decompressSynonyms_def rd to_csv_def)
qed

text \<open>
  C2, as the code has it. Whenever \<open>decompressCheBINames\<close> or \<open>decompressCheBIFormulas\<close>
  writes its output, every written row has an integer Compound ID (the int64 value
  \<^verbatim>\<open>astype('int')\<close> gave it) and the Compound IDs are in non-decreasing order.
  \<open>decompressMass\<close> and \<open>decompressSynonyms\<close> neither coerce nor sort: they write the
  lines of their source in the order of the source, under the column ID.
\<close>

theorem decompressors_written_order:
  "(decompressCheBINames filesN = Inr outN \<longrightarrow>
      (\<exists>b ids. outN ''./chebiNames.csv'' = Some \<lparr>header = [''Compound ID'', ''Name''], body = b\<rparr>
         \<and> map (\<lambda>r. getitem [''Compound ID'', ''Name''] r ''Compound ID'') b = map (\<lambda>n. Inr (CInt n)) ids
         \<and> sorted ids))
   \<and> (decompressCheBIFormulas filesF = Inr outF \<longrightarrow>
      (\<exists>b ids. outF ''./chebiFormulas.csv'' = Some \<lparr>header = [''Compound ID'', ''Formula''], body = b\<rparr>
         \<and> map (\<lambda>r. getitem [''Compound ID'', ''Formula''] r ''Compound ID'') b = map (\<lambda>n. Inr (CInt n)) ids
         \<and> sorted ids))
   \<and> (filesM ''./cid-mass'' = Some mass \<and> header mass = [] \<and> \<not> list_ex (\<lambda>r. 4 < length r) (body mass) \<longrightarrow>
        decompressMass filesM =
          Inr (filesM(''./cid-mass.csv'' \<mapsto>
                 \<lparr>header = [''ID'', ''Formula''], body = map (\<lambda>r. take 2 (pad 4 r)) (body mass)\<rparr>)))
   \<and> (filesS ''./cid-synonyms'' = Some syn \<and> header syn = [] \<and> \<not> list_ex (\<lambda>r. 2 < length r) (body syn) \<longrightarrow>
        decompressSynonyms filesS =
          Inr (filesS(''./cid-synonyms.csv'' \<mapsto>
                 \<lparr>header = [''ID'', ''Synonym''], body = map (pad 2) (body syn)\<rparr>)))"
  using decompressCheBINames_sorted[of filesN outN] decompressCheBIFormulas_sorted[of filesF outF]
    decompressMass_source_order[of filesM mass] decompressSynonyms_source_order[of filesS syn]
  by blast

theorem decompressMass_unsorted_counterexample:
  "decompressMass
     [''./cid-mass'' \<mapsto> \<lparr>header = [], body = [[CInt 2, CStr ''H2O'', CInt 18, CInt 18],
                                                  [CInt 1, CStr ''CH4'', CInt 16, CInt 16]]\<rparr>]
   = Inr [''./cid-mass'' \<mapsto> \<lparr>header = [], body = [[CInt 2, CStr ''H2O'', CInt 18, CInt 18],
                                                      [CInt 1, CStr ''CH4'', CInt 16, CInt 16]]\<rparr>,
          ''./cid-mass.csv'' \<mapsto> \<lparr>header = [''ID'', ''Formula''],
                                    body = [[CInt 2, CStr ''H2O''], [CInt 1, CStr ''CH4'']]\<rparr>]
   \<and> getitem [''ID'', ''Formula''] [CInt 2, CStr ''H2O''] ''ID'' = Inr (CInt 2)
   \<and> getitem [''ID'', ''Formula''] [CInt 1, CStr ''CH4''] ''ID'' = Inr (CInt 1)
   \<and> \<not> sorted [2, 1 :: int]"
  by (simp add: decompressMass_def read_csv_names_def pad_def drop_columns_def to_csv_def getitem_def)

theorem decompressors_written_order_witness:
  "decompressCheBINames sample_sources =
     Inr (sample_sources(''./chebiNames.csv'' \<mapsto>
            \<lparr>header = [''Compound ID'', ''Name''],
               body = [[CInt 3, CStr ''salt''], [CInt 5, CStr ''water'']]\<rparr>))
   \<and> decompressCheBIFormulas sample_sources =
     Inr (sample_sources(''./chebiFormulas.csv'' \<mapsto>
            \<lparr>header = [''Compound ID'', ''Formula''],
               body = [[CInt 3, CStr ''ClNa''], [CInt 5, CStr ''H2O'']]\<rparr>))
   \<and> decompressMass sample_sources =
     Inr (sample_sources(''./cid-mass.csv'' \<mapsto>
            \<lparr>header = [''ID'', ''Formula''], body = [[CInt 2, CStr ''H2O''], [CInt 1, CStr ''CH4'']]\<rparr>))
   \<and> decompressSynonyms sample_sources =
     Inr (sample_sources(''./cid-synonyms.csv'' \<mapsto>
            \<lparr>header = [''ID'', ''Synonym''], body = [[CInt 2, CStr ''water''], [CInt 1, CStr ''methane'']]\<rparr>))
   \<and> (\<exists>ids. map (\<lambda>r. getitem [''Compound ID'', ''Name''] r ''Compound ID'')
                [[CInt 3, CStr ''salt''], [CInt 5, CStr ''water'']] = map (\<lambda>n. Inr (CInt n)) ids
            \<and> sorted ids)
   \<and> (\<exists>ids. map (\<lambda>r. getitem [''Compound ID'', ''Formula''] r ''Compound ID'')
                [[CInt 3, CStr ''ClNa''], [CInt 5, CStr ''H2O'']] = map (\<lambda>n. Inr (CInt n)) ids
            \<and> sorted ids)"
proof -
  let ?n = "sample_sources(''./chebiNames.csv'' \<mapsto>
            \<lparr>header = [''Compound ID'', ''Name''],
               body = [[CInt 3, CStr ''salt''], [CInt 5, CStr ''water'']]\<rparr>)"
  let ?f = "sample_sources(''./chebiFormulas.csv'' \<mapsto>
            \<lparr>header = [''Compound ID'', ''Formula''],
               body = [[CInt 3, CStr ''ClNa''], [CInt 5, CStr ''H2O'']]\<rparr>)"
  let ?m = "\<lparr>header = [], body = [[CInt 2, CStr ''H2O'', CInt 18, CInt 18],
                               [CInt 1, CStr ''CH4'', CInt 16, CInt 16]]\<rparr>"
  let ?s = "\<lparr>header = [], body = [[CInt 2, CStr ''water''], [CInt 1, CStr ''methane'']]\<rparr>"
  have n: "decompressCheBINames sample_sources = Inr ?n"
    by (simp add: decompressCheBINames_def sample_sources_def chemical_data_url_def
        database_accession_url_def read_csv_def pad_def drop_columns_def set_columns_def
        astype_int_column_def astype_int_def wrap64_def sort_values_def sort_cell_def is_num_def
        num_val_def getitem_def to_csv_def sort_key_def Let_def)
  have f: "decompressCheBIFormulas sample_sources = Inr ?f"
    by (simp add: decompressCheBIFormulas_def sample_sources_def chemical_data_url_def
        database_accession_url_def read_csv_def pad_def drop_columns_def set_columns_def
        keep_type_def astype_int_column_def astype_int_def wrap64_def sort_values_def
        sort_cell_def is_num_def num_val_def getitem_def to_csv_def sort_key_def Let_def)
  have m: "sample_sources ''./cid-mass'' = Some ?m \<and> header ?m = []
             \<and> \<not> list_ex (\<lambda>r. 4 < length r) (body ?m)"
    by (simp add: sample_sources_def chemical_data_url_def database_accession_url_def)
  have s: "sample_sources ''./cid-synonyms'' = Some ?s \<and> header ?s = []
             \<and> \<not> list_ex (\<lambda>r. 2 < length r) (body ?s)"
    by (simp add: sample_sources_def chemical_data_url_def database_accession_url_def)
  note inst = decompressors_written_order[where filesN = sample_sources and outN = ?n
      and filesF = sample_sources and outF = ?f
      and filesM = sample_sources and mass = ?m and filesS = sample_sources and syn = ?s]
  from inst n have "\<exists>b ids. ?n ''./chebiNames.csv'' = Some \<lparr>header = [''Compound ID'', ''Name''], body = b\<rparr>
         \<and> map (\<lambda>r. getitem [''Compound ID'', ''Name''] r ''Compound ID'') b = map (\<lambda>n. Inr (CInt n)) ids
         \<and> sorted ids"
    by blast
  then have ids: "\<exists>ids. map (\<lambda>r. getitem [''Compound ID'', ''Name''] r ''Compound ID'')
                [[CInt 3, CStr ''salt''], [CInt 5, CStr ''water'']] = map (\<lambda>n. Inr (CInt n)) ids
            \<and> sorted ids"
    by simp
  from inst f have "\<exists>b ids. ?f ''./chebiFormulas.csv'' = Some \<lparr>header = [''Compound ID'', ''Formula''], body = b\<rparr>
         \<and> map (\<lambda>r. getitem [''Compound ID'', ''Formula''] r ''Compound ID'') b = map (\<lambda>n. Inr (CInt n)) ids
         \<and> sorted ids"
    by blast
  then have idsF: "\<exists>ids. map (\<lambda>r. getitem [''Compound ID'', ''Formula''] r ''Compound ID'')
                [[CInt 3, CStr ''ClNa''], [CInt 5, CStr ''H2O'']] = map (\<lambda>n. Inr (CInt n)) ids
            \<and> sorted ids"
    by simp
  from inst m have mass: "decompressMass sample_sources =
          Inr (sample_sources(''./cid-mass.csv'' \<mapsto>
                 \<lparr>header = [''ID'', ''Formula''], body = map (\<lambda>r. take 2 (pad 4 r)) (body ?m)\<rparr>))"
    by blast
  from inst s have syn: "decompressSynonyms sample_sources =
          Inr (sample_sources(''./cid-synonyms.csv'' \<mapsto>
                 \<lparr>header = [''ID'', ''Synonym''], body = map (pad 2) (body ?s)\<rparr>))"
    by blast
  show ?thesis
    using n f ids idsF mass syn by (simp add: pad_def)
qed

section \<open>Merger: duplicate keys in the lookup tables\<close>

lemma dict_get_hash: "hash_key k = hash_key k' \<Longrightarrow> dict_get d k = dict_get d k'"
  by (simp add: dict_get_def)

lemma merge_cell_found:
  "dict_get d k = Some v \<Longrightarrow> merge_cell d k = (if truthy v then v else CStr ''MISSING'')"
  by (simp add: merge_cell_def truthy_opt_def chosen_or_missing_def)

lemma index_loop_last_found:
  assumes "index_loop valcol cols rws Map.empty = Inr d"
    and "hash_key k \<noteq> None"
    and "j < length rws"
    and "getitem cols (snd (rws ! j)) ''Compound ID'' = Inr kj"
    and "hash_key kj = hash_key k"
    and "getitem cols (snd (rws ! j)) valcol = Inr v"
    and "\<forall>j' k'. j < j' \<and> j' < length rws \<and> getitem cols (snd (rws ! j')) ''Compound ID'' = Inr k'
           \<longrightarrow> hash_key k' \<noteq> hash_key k"
  shows "dict_get d k = Some v"
proof -
  have "dict_get d kj = Some v"
    using assms(2,5,7) by (intro index_loop_last_value[OF assms(1,3,4,6)]) simp_all
  then show ?thesis
    using dict_get_hash[OF assms(5), of d] by simp
qed

text \<open>
  C8. The Merger builds its Formula index from the Formulas table and its CAS index from
  the CAS table, and writes the cells it finds there. When several rows of the Formulas
  table have the Compound ID of a Names row, the index holds the Formula of the last of
  them in table order, and that value is the one the Merger takes for the Formula cell
  of the row it writes (as the value itself when it is true as a truth value). The same
  holds for the CAS table, its Accession Number column and the CAS cell.
\<close>

theorem mergeCSVCheBI_last_write_wins:
  assumes "read_csv files ''./chebiFormulas.csv'' = Inr formulaCSV"
    and "''Formula'' \<in> set (columns formulaCSV)" and "''Compound ID'' \<in> set (columns formulaCSV)"
    and "read_csv files ''./chebiCAS.csv'' = Inr casCSV"
    and "''Accession Number'' \<in> set (columns casCSV)" and "''Compound ID'' \<in> set (columns casCSV)"
    and "read_csv files ''./chebiNames.csv'' = Inr synonyms"
    and "''Compound ID'' \<in> set (columns synonyms)" and "''Name'' \<in> set (columns synonyms)"
    and "''Formula'' \<notin> set (columns synonyms)" and "''CAS'' \<notin> set (columns synonyms)"
    and "i < length (rows synonyms)"
    and "getitem (columns synonyms) (snd (rows synonyms ! i)) ''Compound ID'' = Inr k"
    and "hash_key k \<noteq> None"
  shows "\<exists>formulas cas out.
           index_loop ''Formula'' (columns formulaCSV) (rows formulaCSV) Map.empty = Inr formulas
         \<and> index_loop ''Accession Number'' (columns casCSV) (rows casCSV) Map.empty = Inr cas
         \<and> mergeCSVCheBI files =
             Inr (files(''./chebiChemicalsCAS.csv'' \<mapsto>
                    \<lparr>header = columns synonyms @ [''Formula'', ''CAS''], body = out\<rparr>))
         \<and> out ! i = snd (rows synonyms ! i) @ [merge_cell formulas k, merge_cell cas k]
         \<and> (\<forall>j kj v.
               j < length (rows formulaCSV)
               \<and> getitem (columns formulaCSV) (snd (rows formulaCSV ! j)) ''Compound ID'' = Inr kj
               \<and> hash_key kj = hash_key k
               \<and> getitem (columns formulaCSV) (snd (rows formulaCSV ! j)) ''Formula'' = Inr v
               \<and> (\<forall>j' k'. j < j' \<and> j' < length (rows formulaCSV)
                      \<and> getitem (columns formulaCSV) (snd (rows formulaCSV ! j')) ''Compound ID'' = Inr k'
                    \<longrightarrow> hash_key k' \<noteq> hash_key k)
             \<longrightarrow> dict_get formulas k = Some v
                 \<and> merge_cell formulas k = (if truthy v then v else CStr ''MISSING''))
         \<and> (\<forall>j kj v.
               j < length (rows casCSV)
               \<and> getitem (columns casCSV) (snd (rows casCSV ! j)) ''Compound ID'' = Inr kj
               \<and> hash_key kj = hash_key k
               \<and> getitem (columns casCSV) (snd (rows casCSV ! j)) ''Accession Number'' = Inr v
               \<and> (\<forall>j' k'. j < j' \<and> j' < length (rows casCSV)
                      \<and> getitem (columns casCSV) (snd (rows casCSV ! j')) ''Compound ID'' = Inr k'
                    \<longrightarrow> hash_key k' \<noteq> hash_key k)
             \<longrightarrow> dict_get cas k = Some v
                 \<and> merge_cell cas k = (if truthy v then v else CStr ''MISSING''))"
proof -
  from mergeCSVCheBI_rows[OF assms(1-11)]
  obtain formulas cas out where
    formulas: "index_loop ''Formula'' (columns formulaCSV) (rows formulaCSV) Map.empty = Inr formulas"
    and cas: "index_loop ''Accession Number'' (columns casCSV) (rows casCSV) Map.empty = Inr cas"
    and run: "mergeCSVCheBI files =
             Inr (files(''./chebiChemicalsCAS.csv'' \<mapsto>
                    \<lparr>header = columns synonyms @ [''Formula'', ''CAS''], body = out\<rparr>))"
    and rws: "\<forall>i. i < length (rows synonyms) \<longrightarrow>
               (\<exists>k. getitem (columns synonyms) (snd (rows synonyms ! i)) ''Compound ID'' = Inr k
                  \<and> out ! i = snd (rows synonyms ! i) @ [merge_cell formulas k, merge_cell cas k])"
    by (elim exE conjE) (rule that; assumption)
  from rws assms(12,13)
  have row: "out ! i = snd (rows synonyms ! i) @ [merge_cell formulas k, merge_cell cas k]"
    by auto
  have f: "dict_get formulas k = Some v \<and> merge_cell formulas k = (if truthy v then v else CStr ''MISSING'')"
    if "j < length (rows formulaCSV)
        \<and> getitem (columns formulaCSV) (snd (rows formulaCSV ! j)) ''Compound ID'' = Inr kj
        \<and> hash_key kj = hash_key k
        \<and> getitem (columns formulaCSV) (snd (rows formulaCSV ! j)) ''Formula'' = Inr v
        \<and> (\<forall>j' k'. j < j' \<and> j' < length (rows formulaCSV)
               \<and> getitem (columns formulaCSV) (snd (rows formulaCSV ! j')) ''Compound ID'' = Inr k'
             \<longrightarrow> hash_key k' \<noteq> hash_key k)" for j kj v
  proof -
    have "dict_get formulas k = Some v"
      using that by (intro index_loop_last_found[OF formulas assms(14), of j kj v]) simp_all
    then show ?thesis
      using merge_cell_found by simp
  qed
  have c: "dict_get cas k = Some v \<and> merge_cell cas k = (if truthy v then v else CStr ''MISSING'')"
    if "j < length (rows casCSV)
        \<and> getitem (columns casCSV) (snd (rows casCSV ! j)) ''Compound ID'' = Inr kj
        \<and> hash_key kj = hash_key k
        \<and> getitem (columns casCSV) (snd (rows casCSV ! j)) ''Accession Number'' = Inr v
        \<and> (\<forall>j' k'. j < j' \<and> j' < length (rows casCSV)
               \<and> getitem (columns casCSV) (snd (rows casCSV ! j')) ''Compound ID'' = Inr k'
             \<longrightarrow> hash_key k' \<noteq> hash_key k)" for j kj v
  proof -
    have "dict_get cas k = Some v"
      using that by (intro index_loop_last_found[OF cas assms(14), of j kj v]) simp_all
    then show ?thesis
      using merge_cell_found by simp
  qed
  show ?thesis
  proof (rule exI[of _ formulas], rule exI[of _ cas], rule exI[of _ out], intro conjI allI impI)
    show "index_loop ''Formula'' (columns formulaCSV) (rows formulaCSV) Map.empty = Inr formulas"
      by (rule formulas)
    show "index_loop ''Accession Number'' (columns casCSV) (rows casCSV) Map.empty = Inr cas"
      by (rule cas)
    show "mergeCSVCheBI files =
             Inr (files(''./chebiChemicalsCAS.csv'' \<mapsto>
                    \<lparr>header = columns synonyms @ [''Formula'', ''CAS''], body = out\<rparr>))"
      by (rule run)
    show "out ! i = snd (rows synonyms ! i) @ [merge_cell formulas k, merge_cell cas k]"
      by (rule row)
  qed (use f c in blast)+
qed

theorem mergeCSVCheBI_last_write_wins_witness:
  "\<exists>out. mergeCSVCheBI
       [''./chebiFormulas.csv'' \<mapsto>
          \<lparr>header = [''Compound ID'', ''Formula''],
             body = [[CInt 7, CStr ''H2O''], [CInt 8, CStr ''CO2''], [CInt 7, CStr ''HO'']]\<rparr>,
        ''./chebiCAS.csv'' \<mapsto>
          \<lparr>header = [''Compound ID'', ''Accession Number''],
             body = [[CInt 7, CStr ''1-1-1''], [CInt 7, CStr ''2-2-2'']]\<rparr>,
        ''./chebiNames.csv'' \<mapsto>
          \<lparr>header = [''Compound ID'', ''Name''], body = [[CInt 7, CStr ''water'']]\<rparr>]
     = Inr [''./chebiFormulas.csv'' \<mapsto>
              \<lparr>header = [''Compound ID'', ''Formula''],
                 body = [[CInt 7, CStr ''H2O''], [CInt 8, CStr ''CO2''], [CInt 7, CStr ''HO'']]\<rparr>,
            ''./chebiCAS.csv'' \<mapsto>
              \<lparr>header = [''Compound ID'', ''Accession Number''],
                 body = [[CInt 7, CStr ''1-1-1''], [CInt 7, CStr ''2-2-2'']]\<rparr>,
            ''./chebiNames.csv'' \<mapsto>
              \<lparr>header = [''Compound ID'', ''Name''], body = [[CInt 7, CStr ''water'']]\<rparr>,
            ''./chebiChemicalsCAS.csv'' \<mapsto>
              \<lparr>header = [''Compound ID'', ''Name'', ''Formula'', ''CAS''], body = out\<rparr>]
   \<and> out ! 0 = [CInt 7, CStr ''water'', CStr ''HO'', CStr ''2-2-2'']"
proof -
  let ?files = "[''./chebiFormulas.csv'' \<mapsto>
          \<lparr>header = [''Compound ID'', ''Formula''],
             body = [[CInt 7, CStr ''H2O''], [CInt 8, CStr ''CO2''], [CInt 7, CStr ''HO'']]\<rparr>,
        ''./chebiCAS.csv'' \<mapsto>
          \<lparr>header = [''Compound ID'', ''Accession Number''],
             body = [[CInt 7, CStr ''1-1-1''], [CInt 7, CStr ''2-2-2'']]\<rparr>,
        ''./chebiNames.csv'' \<mapsto>
          \<lparr>header = [''Compound ID'', ''Name''], body = [[CInt 7, CStr ''water'']]\<rparr>]"
  let ?f = "\<lparr>columns = [''Compound ID'', ''Formula''],
             rows = [(0, [CInt 7, CStr ''H2O'']), (1, [CInt 8, CStr ''CO2'']), (2, [CInt 7, CStr ''HO''])]\<rparr>"
  let ?c = "\<lparr>columns = [''Compound ID'', ''Accession Number''],
             rows = [(0, [CInt 7, CStr ''1-1-1'']), (1, [CInt 7, CStr ''2-2-2''])]\<rparr>"
  let ?n = "\<lparr>columns = [''Compound ID'', ''Name''], rows = [(0, [CInt 7, CStr ''water''])]\<rparr>"
  have f: "read_csv ?files ''./chebiFormulas.csv'' = Inr ?f"
    and c: "read_csv ?files ''./chebiCAS.csv'' = Inr ?c"
    and n: "read_csv ?files ''./chebiNames.csv'' = Inr ?n"
    by (simp_all add: read_csv_def pad_def upt_rec)
  have cols: "''Formula'' \<in> set (columns ?f)" "''Compound ID'' \<in> set (columns ?f)"
      "''Accession Number'' \<in> set (columns ?c)" "''Compound ID'' \<in> set (columns ?c)"
      "''Compound ID'' \<in> set (columns ?n)" "''Name'' \<in> set (columns ?n)"
      "''Formula'' \<notin> set (columns ?n)" "''CAS'' \<notin> set (columns ?n)"
    by simp_all
  have i: "0 < length (rows ?n)"
    and k: "getitem (columns ?n) (snd (rows ?n ! 0)) ''Compound ID'' = Inr (CInt 7)"
    and h: "hash_key (CInt 7) \<noteq> None"
    by (simp_all add: getitem_def hash_key_def)
  from mergeCSVCheBI_last_write_wins[OF f cols(1,2) c cols(3,4) n cols(5-8) i k h]
  obtain formulas cas out where
    run: "mergeCSVCheBI ?files =
             Inr (?files(''./chebiChemicalsCAS.csv'' \<mapsto>
                    \<lparr>header = columns ?n @ [''Formula'', ''CAS''], body = out\<rparr>))"
    and row: "out ! 0 = snd (rows ?n ! 0) @ [merge_cell formulas (CInt 7), merge_cell cas (CInt 7)]"
    and fl: "\<forall>j kj v.
               j < length (rows ?f)
               \<and> getitem (columns ?f) (snd (rows ?f ! j)) ''Compound ID'' = Inr kj
               \<and> hash_key kj = hash_key (CInt 7)
               \<and> getitem (columns ?f) (snd (rows ?f ! j)) ''Formula'' = Inr v
               \<and> (\<forall>j' k'. j < j' \<and> j' < length (rows ?f)
                      \<and> getitem (columns ?f) (snd (rows ?f ! j')) ''Compound ID'' = Inr k'
                    \<longrightarrow> hash_key k' \<noteq> hash_key (CInt 7))
             \<longrightarrow> dict_get formulas (CInt 7) = Some v
                 \<and> merge_cell formulas (CInt 7) = (if truthy v then v else CStr ''MISSING'')"
    and cl: "\<forall>j kj v.
               j < length (rows ?c)
               \<and> getitem (columns ?c) (snd (rows ?c ! j)) ''Compound ID'' = Inr kj
               \<and> hash_key kj = hash_key (CInt 7)
               \<and> getitem (columns ?c) (snd (rows ?c ! j)) ''Accession Number'' = Inr v
               \<and> (\<forall>j' k'. j < j' \<and> j' < length (rows ?c)
                      \<and> getitem (columns ?c) (snd (rows ?c ! j')) ''Compound ID'' = Inr k'
                    \<longrightarrow> hash_key k' \<noteq> hash_key (CInt 7))
             \<longrightarrow> dict_get cas (CInt 7) = Some v
                 \<and> merge_cell cas (CInt 7) = (if truthy v then v else CStr ''MISSING'')"
    by (elim exE conjE) (rule that; assumption)
  have lastf: "\<forall>j' k'. 2 < j' \<and> j' < length (rows ?f)
                      \<and> getitem (columns ?f) (snd (rows ?f ! j')) ''Compound ID'' = Inr k'
                    \<longrightarrow> hash_key k' \<noteq> hash_key (CInt 7)"
  proof (intro allI impI)
    fix j' k'
    assume "2 < j' \<and> j' < length (rows ?f)
              \<and> getitem (columns ?f) (snd (rows ?f ! j')) ''Compound ID'' = Inr k'"
    then have "2 < j'" and "j' < 3" by simp_all
    then have False by linarith
    then show "hash_key k' \<noteq> hash_key (CInt 7)" ..
  qed
  have lastc: "\<forall>j' k'. 1 < j' \<and> j' < length (rows ?c)
                      \<and> getitem (columns ?c) (snd (rows ?c ! j')) ''Compound ID'' = Inr k'
                    \<longrightarrow> hash_key k' \<noteq> hash_key (CInt 7)"
  proof (intro allI impI)
    fix j' k'
    assume "1 < j' \<and> j' < length (rows ?c)
              \<and> getitem (columns ?c) (snd (rows ?c ! j')) ''Compound ID'' = Inr k'"
    then have "1 < j'" and "j' < 2" by simp_all
    then have False by linarith
    then show "hash_key k' \<noteq> hash_key (CInt 7)" ..
  qed
  have f2: "2 < length (rows ?f)"
    "getitem (columns ?f) (snd (rows ?f ! 2)) ''Compound ID'' = Inr (CInt 7)"
    "getitem (columns ?f) (snd (rows ?f ! 2)) ''Formula'' = Inr (CStr ''HO'')"
    by (simp_all add: getitem_def)
  have c1: "1 < length (rows ?c)"
    "getitem (columns ?c) (snd (rows ?c ! 1)) ''Compound ID'' = Inr (CInt 7)"
    "getitem (columns ?c) (snd (rows ?c ! 1)) ''Accession Number'' = Inr (CStr ''2-2-2'')"
    by (simp_all add: getitem_def)
  from fl[rule_format, of 2 "CInt 7" "CStr ''HO''"] f2 lastf
  have mf: "merge_cell formulas (CInt 7) = CStr ''HO''"
    by (simp add: truthy_def)
  from cl[rule_format, of 1 "CInt 7" "CStr ''2-2-2''"] c1 lastc
  have mc: "merge_cell cas (CInt 7) = CStr ''2-2-2''"
    by (simp add: truthy_def)
  have "out ! 0 = [CInt 7, CStr ''water'', CStr ''HO'', CStr ''2-2-2'']"
    using row mf mc by simp
  with run show ?thesis
    by (intro exI[of _ out]) simp
qed

section \<open>Database loader: rows and connections\<close>






lemma to_sql_error: "to_sql df name db = Inl e \<Longrightarrow> e = OperationalError"
  by (auto simp: to_sql_def split: option.splits if_splits)

lemma connect_error: "connect output w = Inl e \<Longrightarrow> e = OperationalError \<and> output \<in> set (w_unopenable w)"
  by (auto simp: connect_def split: if_splits)

lemma connect_ok:
  "connect output w = Inr w1 \<Longrightarrow> w_handles w1 = output # w_handles w \<and> output \<notin> set (w_unopenable w)"
  by (auto simp: connect_def split: if_splits)

lemma makeDatabase_handles:
  assumes "makeDatabase input output name w = (r, w')"
  shows "(r = None \<longrightarrow> w_handles w' = w_handles w)
       \<and> (\<forall>e. read_csv (w_files w) input = Inl e \<longrightarrow> r = Some e \<and> w' = w)
       \<and> (\<forall>data. read_csv (w_files w) input = Inr data \<and> output \<in> set (w_unopenable w) \<longrightarrow>
             r = Some OperationalError \<and> w' = w)
       \<and> (\<forall>data. read_csv (w_files w) input = Inr data \<and> output \<notin> set (w_unopenable w)
               \<and> r \<noteq> None \<longrightarrow>
             r = Some OperationalError \<and> w_handles w' = output # w_handles w)"
proof (cases "read_csv (w_files w) input")
  case (Inl e)
  then show ?thesis
    using assms by (simp add: makeDatabase_def)
next
  case (Inr data)
  show ?thesis
  proof (cases "connect output w")
    case (Inl e)
    from connect_error[OF Inl] Inl Inr assms show ?thesis
      by (simp add: makeDatabase_def)
  next
    case c: (Inr w1)
    let ?db = "case w_stores w1 output of Some db \<Rightarrow> db | None \<Rightarrow> []"
    note h = connect_ok[OF c]
    show ?thesis
    proof (cases "to_sql data name ?db")
      case (Inl e)
      then have "e = OperationalError"
        by (rule to_sql_error)
      with Inl Inr c h assms show ?thesis
        by (auto simp: makeDatabase_def)
    next
      case t: (Inr db')
      with Inr c assms have "r = None"
        and "w' = close output (w1\<lparr>w_stores := (w_stores w1)(output \<mapsto> db')\<rparr>)"
        by (simp_all add: makeDatabase_def)
      then show ?thesis
        using Inr h by (simp add: close_def)
    qed
  qed
qed



text \<open>
  C5. On a fresh store the call succeeds and leaves no connection open:
  \<^verbatim>\<open>chemicals.close()\<close> has released the handle. When the table is there with a column
  Title and the CSV file has a column Name, the append raises; the error leaves the
  function before \<^verbatim>\<open>chemicals.close()\<close> is reached and the connection to the store stays
  open.
\<close>

theorem makeDatabase_append_error_leaves_handle_open:
  "makeDatabase ''in.csv'' ''chem.db'' ''chemicals''
     \<lparr>w_files = [''in.csv'' \<mapsto> \<lparr>header = [''Name''], body = [[CStr ''water'']]\<rparr>],
        w_stores = Map.empty, w_unopenable = [], w_handles = []\<rparr>
   = (None,
      \<lparr>w_files = [''in.csv'' \<mapsto> \<lparr>header = [''Name''], body = [[CStr ''water'']]\<rparr>],
         w_stores = [''chem.db'' \<mapsto>
                       [(''chemicals'', \<lparr>t_columns = [''Name''], t_rows = [[CStr ''water'']]\<rparr>)]],
         w_unopenable = [], w_handles = []\<rparr>)
   \<and> makeDatabase ''in.csv'' ''chem.db'' ''chemicals''
     \<lparr>w_files = [''in.csv'' \<mapsto> \<lparr>header = [''Name''], body = [[CStr ''water'']]\<rparr>],
        w_stores = [''chem.db'' \<mapsto> [(''chemicals'', \<lparr>t_columns = [''Title''], t_rows = []\<rparr>)]],
        w_unopenable = [], w_handles = []\<rparr>
   = (Some OperationalError,
      \<lparr>w_files = [''in.csv'' \<mapsto> \<lparr>header = [''Name''], body = [[CStr ''water'']]\<rparr>],
         w_stores = [''chem.db'' \<mapsto> [(''chemicals'', \<lparr>t_columns = [''Title''], t_rows = []\<rparr>)]],
         w_unopenable = [], w_handles = [''chem.db'']\<rparr>)"
proof -
  have ln: "lower ''Name'' = ''name''" and lt: "lower ''Title'' = ''title''"
    by (simp_all add: lower_def lower_char_def upper_letters_def lower_letters_def)
  show ?thesis
    by (simp add: makeDatabase_def read_csv_def pad_def connect_def close_def to_sql_def ln lt)
qed

end
